theory Spec2Isabelle
  imports Main "HOL-Library.Sublist"
begin

section \<open>ErrorConstants.ts: the error taxonomy\<close>

text \<open>
  The enum \<open>ErrorCategory\<close> has eleven members; each member's value is the string of
  its own name. \<open>ErrorCategory_values\<close> is \<open>Object.values(ErrorCategory)\<close>, in
  declaration order.
\<close>

datatype ErrorCategory =
  DATA | ELEMENT | NAVIGATION | ASSERTION | NETWORK | AUTH
  | PERFORMANCE | VISUAL | API | FRAMEWORK | UNKNOWN

fun category_name :: "ErrorCategory \<Rightarrow> string" where
  "category_name DATA = ''DATA''"
| "category_name ELEMENT = ''ELEMENT''"
| "category_name NAVIGATION = ''NAVIGATION''"
| "category_name ASSERTION = ''ASSERTION''"
| "category_name NETWORK = ''NETWORK''"
| "category_name AUTH = ''AUTH''"
| "category_name PERFORMANCE = ''PERFORMANCE''"
| "category_name VISUAL = ''VISUAL''"
| "category_name API = ''API''"
| "category_name FRAMEWORK = ''FRAMEWORK''"
| "category_name UNKNOWN = ''UNKNOWN''"

definition ErrorCategory_values :: "ErrorCategory list" where
  "ErrorCategory_values =
     [DATA, ELEMENT, NAVIGATION, ASSERTION, NETWORK, AUTH,
      PERFORMANCE, VISUAL, API, FRAMEWORK, UNKNOWN]"

text \<open>An entry of the catalog \<open>ErrorCode\<close>: \<open>{ code, category, message, title }\<close>.\<close>

record ErrorCodeEntry =
  code :: int
  category :: ErrorCategory
  message :: string
  title :: string

definition entry :: "int \<Rightarrow> ErrorCategory \<Rightarrow> string \<Rightarrow> string \<Rightarrow> ErrorCodeEntry" where
  "entry c cat m t = \<lparr>code = c, category = cat, message = m, title = t\<rparr>"

definition ERROR_ELEMENT_NOT_VISIBLE :: ErrorCodeEntry where
  "ERROR_ELEMENT_NOT_VISIBLE = entry 2002 ELEMENT ''Element is not visible'' ''Element Not Visible''"

definition ERROR_LOCATOR_NOT_FOUND :: ErrorCodeEntry where
  "ERROR_LOCATOR_NOT_FOUND = entry 2001 ELEMENT ''Element locator not found'' ''Element Not Found''"

definition ERROR_NAVIGATION_FAILED :: ErrorCodeEntry where
  "ERROR_NAVIGATION_FAILED = entry 3002 NAVIGATION ''Navigation to page failed'' ''Navigation Failed''"

definition ERROR_INVALID_DATA :: ErrorCodeEntry where
  "ERROR_INVALID_DATA = entry 1001 DATA ''Invalid test data provided'' ''Invalid Data''"

definition ERROR_NETWORK_TIMEOUT :: ErrorCodeEntry where
  "ERROR_NETWORK_TIMEOUT = entry 5002 NETWORK ''Network request timed out'' ''Network Timeout''"

definition ERROR_AUTH_FAILED :: ErrorCodeEntry where
  "ERROR_AUTH_FAILED = entry 6001 AUTH ''Authentication failed'' ''Authentication Failed''"

text \<open>
  The object literal \<open>ErrorCode\<close>, as the list of its properties in source order
  (\<open>ERROR_ELEMENT_TIMEOUT\<close>, code 2007, stands before code 2005 in the source).
\<close>

definition ErrorCode :: "(string \<times> ErrorCodeEntry) list" where
  "ErrorCode =
    [(''ERROR_INVALID_DATA'', ERROR_INVALID_DATA),
     (''ERROR_MISSING_DATA'', entry 1002 DATA ''Required test data is missing'' ''Missing Data''),
     (''ERROR_DATA_FORMAT'', entry 1003 DATA ''Test data format is incorrect'' ''Data Format Error''),
     (''ERROR_ENV_DATA_NOT_FOUND'',
        entry 1004 DATA ''Environment-specific data not found'' ''Environment Data Not Found''),
     (''ERROR_LOCATOR_NOT_FOUND'', ERROR_LOCATOR_NOT_FOUND),
     (''ERROR_ELEMENT_NOT_VISIBLE'', ERROR_ELEMENT_NOT_VISIBLE),
     (''ERROR_ELEMENT_NOT_CLICKABLE'',
        entry 2003 ELEMENT ''Element is not clickable'' ''Element Not Clickable''),
     (''ERROR_ELEMENT_WRONG_STATE'',
        entry 2004 ELEMENT ''Element is in wrong state'' ''Element Wrong State''),
     (''ERROR_ELEMENT_TIMEOUT'',
        entry 2007 ELEMENT ''Element interaction timed out'' ''Element Timeout''),
     (''ERROR_ELEMENT_ATTRIBUTE_MISSING'',
        entry 2005 ELEMENT ''Element attribute is missing'' ''Missing Element Attribute''),
     (''ERROR_STALE_ELEMENT'',
        entry 2006 ELEMENT ''Element is stale or no longer attached to DOM'' ''Stale Element''),
     (''ERROR_PAGE_NOT_LOADED'', entry 3001 NAVIGATION ''Page failed to load'' ''Page Load Failed''),
     (''ERROR_NAVIGATION_FAILED'', ERROR_NAVIGATION_FAILED),
     (''ERROR_REDIRECT_UNEXPECTED'',
        entry 3003 NAVIGATION ''Unexpected redirect occurred'' ''Unexpected Redirect''),
     (''ERROR_URL_MISMATCH'',
        entry 3004 NAVIGATION ''Current URL does not match expected URL'' ''URL Mismatch''),
     (''ERROR_ASSERTION_TEXT'',
        entry 4001 ASSERTION ''Text assertion failed'' ''Text Assertion Failed''),
     (''ERROR_ASSERTION_VISIBILITY'',
        entry 4002 ASSERTION ''Visibility assertion failed'' ''Visibility Assertion Failed''),
     (''ERROR_ASSERTION_COUNT'',
        entry 4003 ASSERTION ''Count assertion failed'' ''Count Assertion Failed''),
     (''ERROR_ASSERTION_STATE'',
        entry 4004 ASSERTION ''State assertion failed'' ''State Assertion Failed''),
     (''ERROR_ASSERTION_PROPERTY'',
        entry 4005 ASSERTION ''Property assertion failed'' ''Property Assertion Failed''),
     (''ERROR_NETWORK_REQUEST_FAILED'',
        entry 5001 NETWORK ''Network request failed'' ''Network Request Failed''),
     (''ERROR_NETWORK_TIMEOUT'', ERROR_NETWORK_TIMEOUT),
     (''ERROR_STATUS_CODE_UNEXPECTED'',
        entry 5003 NETWORK ''Unexpected HTTP status code'' ''Unexpected Status Code''),
     (''ERROR_AUTH_FAILED'', ERROR_AUTH_FAILED),
     (''ERROR_SESSION_EXPIRED'', entry 6002 AUTH ''Session expired'' ''Session Expired''),
     (''ERROR_UNAUTHORIZED'', entry 6003 AUTH ''Unauthorized access'' ''Unauthorized Access''),
     (''ERROR_PERFORMANCE_TIMEOUT'',
        entry 7001 PERFORMANCE ''Operation timed out due to performance issues''
          ''Performance Timeout''),
     (''ERROR_PERFORMANCE_THRESHOLD'',
        entry 7002 PERFORMANCE ''Performance threshold exceeded'' ''Performance Threshold Exceeded''),
     (''ERROR_VISUAL_MISMATCH'',
        entry 8001 VISUAL ''Visual comparison failed'' ''Visual Comparison Failed''),
     (''ERROR_VISUAL_BASELINE_MISSING'',
        entry 8002 VISUAL ''Visual baseline image missing'' ''Missing Visual Baseline''),
     (''ERROR_API_RESPONSE_INVALID'', entry 9001 API ''Invalid API response'' ''Invalid API Response''),
     (''ERROR_API_SCHEMA_VALIDATION'',
        entry 9002 API ''API schema validation failed'' ''API Schema Validation Failed''),
     (''ERROR_CONFIG_INVALID'',
        entry 10001 FRAMEWORK ''Invalid framework configuration'' ''Invalid Configuration''),
     (''ERROR_DEPENDENCY_MISSING'',
        entry 10002 FRAMEWORK ''Required dependency is missing'' ''Missing Dependency''),
     (''ERROR_UNKNOWN'', entry 99999 UNKNOWN ''Unknown error occurred'' ''Unknown Error'')]"

section \<open>JavaScript values and \<open>JSON.stringify\<close>\<close>

text \<open>
  The \<open>details\<close> payload of a report has type \<open>any\<close>. The values modelled are
  \<open>undefined\<close>, \<open>null\<close>, booleans, integer-valued numbers, \<open>NaN\<close>, strings, arrays and
  plain objects (their own properties in insertion order, keys taken unique). \<open>Ref\<close>
  stands for a reference, inside an object, back to an object that encloses it: the
  object built by \<open>const d = {}; d.self = d\<close> is \<open>Obj [(''self'', Ref)]\<close>.
\<close>

datatype jsval =
  Undefined | Null | Bool bool | Num int | NaN | Str string
  | Arr "jsval list" | Obj "(string \<times> jsval) list" | Ref

text \<open>\<open>ToBoolean\<close>, as \<open>||\<close> and \<open>? :\<close> apply it.\<close>

fun truthy :: "jsval \<Rightarrow> bool" where
  "truthy Undefined = False"
| "truthy Null = False"
| "truthy (Bool b) = b"
| "truthy (Num n) = (n \<noteq> 0)"
| "truthy NaN = False"
| "truthy (Str s) = (s \<noteq> [])"
| "truthy (Arr xs) = True"
| "truthy (Obj kvs) = True"
| "truthy Ref = True"

text \<open>Decimal digits of an integer, as a template literal prints a number.\<close>

definition digit_char :: "nat \<Rightarrow> char" where
  "digit_char d = ''0123456789'' ! d"

fun digits :: "nat \<Rightarrow> string" where
  "digits n = (if n < 10 then [digit_char n] else digits (n div 10) @ [digit_char (n mod 10)])"

declare digits.simps [simp del]

definition show_int :: "int \<Rightarrow> string" where
  "show_int i = (if i < 0 then CHR ''-'' # digits (nat (- i)) else digits (nat i))"

fun join :: "string \<Rightarrow> string list \<Rightarrow> string" where
  "join sep [] = []"
| "join sep [x] = x"
| "join sep (x # y # ys) = x @ sep @ join sep (y # ys)"

text \<open>\<open>ToString\<close>, as a template literal applies it to an interpolated value.\<close>

fun to_string :: "jsval \<Rightarrow> string" where
  "to_string Undefined = ''undefined''"
| "to_string Null = ''null''"
| "to_string (Bool b) = (if b then ''true'' else ''false'')"
| "to_string (Num n) = show_int n"
| "to_string NaN = ''NaN''"
| "to_string (Str s) = s"
| "to_string (Arr xs) =
     join '','' (map (\<lambda>x. if x = Undefined \<or> x = Null then [] else to_string x) xs)"
| "to_string (Obj kvs) = ''[object Object]''"
| "to_string Ref = ''[object Object]''"

text \<open>
  Property read \<open>v?.k\<close>: \<open>undefined\<close> on \<open>undefined\<close> and \<open>null\<close> (optional chaining) and
  on values without an own property \<open>k\<close>.
\<close>

fun get_prop :: "jsval \<Rightarrow> string \<Rightarrow> jsval" where
  "get_prop (Obj kvs) k = (case map_of kvs k of Some v \<Rightarrow> v | None \<Rightarrow> Undefined)"
| "get_prop v k = Undefined"

text \<open>
  \<open>JSON.stringify\<close> throws a \<open>TypeError\<close> when it meets a circular reference, wherever
  in the value; every other value modelled here is serialized.
\<close>

fun serializable :: "jsval \<Rightarrow> bool" where
  "serializable Ref = False"
| "serializable (Arr xs) = list_all serializable xs"
| "serializable (Obj kvs) = list_all (\<lambda>(k, v). serializable v) kvs"
| "serializable v = True"

definition hex_char :: "nat \<Rightarrow> char" where
  "hex_char d = ''0123456789abcdef'' ! d"

definition json_escape :: "char \<Rightarrow> string" where
  "json_escape c =
     (let n = (of_char c :: nat) in
      if n = 34 then [CHR 0x5C, CHR 0x22]
      else if n = 92 then [CHR 0x5C, CHR 0x5C]
      else if n = 8 then [CHR 0x5C, CHR ''b'']
      else if n = 12 then [CHR 0x5C, CHR ''f'']
      else if n = 10 then [CHR 0x5C, CHR ''n'']
      else if n = 13 then [CHR 0x5C, CHR ''r'']
      else if n = 9 then [CHR 0x5C, CHR ''t'']
      else if n < 32 then
        [CHR 0x5C, CHR ''u'', CHR ''0'', CHR ''0'', hex_char (n div 16), hex_char (n mod 16)]
      else [c])"

definition json_quote :: "string \<Rightarrow> string" where
  "json_quote s = CHR 0x22 # concat (map json_escape s) @ [CHR 0x22]"

text \<open>
  The text \<open>JSON.stringify(v)\<close> returns for a serializable \<open>v\<close> other than \<open>undefined\<close>:
  a property whose value is \<open>undefined\<close> is left out, \<open>undefined\<close> in an array and
  \<open>NaN\<close> are written \<open>null\<close>.
\<close>

fun json_text :: "jsval \<Rightarrow> string" where
  "json_text Undefined = ''null''"
| "json_text Null = ''null''"
| "json_text (Bool b) = (if b then ''true'' else ''false'')"
| "json_text (Num n) = show_int n"
| "json_text NaN = ''null''"
| "json_text (Str s) = json_quote s"
| "json_text (Arr xs) = ''['' @ join '','' (map json_text xs) @ '']''"
| "json_text (Obj kvs) =
     ''{'' @ join '',''
        (map (\<lambda>(k, v). json_quote k @ '':'' @ json_text v)
          (filter (\<lambda>(k, v). v \<noteq> Undefined) kvs)) @ ''}''"
| "json_text Ref = []"

text \<open>
  The value \<open>JSON.parse\<close> gives back for that text: what is left of \<open>v\<close> after a trip
  through JSON.
\<close>

fun json_value :: "jsval \<Rightarrow> jsval" where
  "json_value Undefined = Null"
| "json_value NaN = Null"
| "json_value (Arr xs) = Arr (map json_value xs)"
| "json_value (Obj kvs) =
     Obj (map (\<lambda>(k, v). (k, json_value v)) (filter (\<lambda>(k, v). v \<noteq> Undefined) kvs))"
| "json_value v = v"

text \<open>
  A thrown JavaScript error: one made by \<open>createError\<close>, an \<open>Error\<close> that carries
  \<open>code\<close>, \<open>category\<close> and \<open>title\<close> as properties, or any other error (a
  \<open>TypeError\<close> of the runtime, an error of the browser library or of \<open>fs\<close>), of which
  only the message is kept.
\<close>

datatype js_error =
  NativeError string
  | ClassifiedError string int ErrorCategory string

fun error_message :: "js_error \<Rightarrow> string" where
  "error_message (NativeError m) = m"
| "error_message (ClassifiedError m c cat t) = m"

definition JSON_stringify :: "jsval \<Rightarrow> js_error + string option" where
  "JSON_stringify v =
     (if \<not> serializable v then Inl (NativeError ''Converting circular structure to JSON'')
      else if v = Undefined then Inr None
      else Inr (Some (json_text v)))"

section \<open>The world of a test worker: page, clock, log directory, console\<close>

text \<open>The interface \<open>ErrorDetails\<close>; an optional field that is absent is \<open>None\<close>
  (\<open>Undefined\<close> for \<open>details\<close>).\<close>

record ErrorDetails = ErrorCodeEntry +
  details :: jsval
  location :: "string option"
  screenshot :: "string option"
  timestamp :: "string option"

text \<open>
  A file of the directory \<open>error-logs\<close>. Its content is kept as what reading and parsing
  it gives: \<open>readFileSync\<close> throws (\<open>Unreadable\<close>), \<open>JSON.parse\<close> throws (\<open>Garbled\<close>),
  or the parse is the record the source casts it to (\<open>JSON.parse(content) as
  ErrorDetails\<close>). \<open>can_stat\<close> and \<open>can_unlink\<close> say whether \<open>statSync\<close> and
  \<open>unlinkSync\<close> succeed on the file.
\<close>

datatype file_content = Unreadable | Garbled | Document ErrorDetails

record log_file =
  file_name :: string
  mtime :: int
  content :: file_content
  can_stat :: bool
  can_unlink :: bool

text \<open>
  The Playwright page handed to the constructors, by what its calls return: \<open>url()\<close>
  returns a string, \<open>title()\<close> resolves or rejects, \<open>screenshot(...)\<close>,
  \<open>goto(url)\<close> and the locator calls resolve or reject.
\<close>

record page =
  page_url :: string
  page_title :: "js_error + string"
  page_screenshot :: "js_error option"
  page_goto :: "string \<Rightarrow> js_error option"
  locator_isVisible :: "string \<Rightarrow> js_error + bool"
  locator_innerText :: "string \<Rightarrow> js_error + string"

text \<open>
  What a call reads and changes outside the page: the clock (\<open>new Date().toISOString()\<close>
  and \<open>Date.now()\<close>, in milliseconds), the directory \<open>error-logs\<close> in the order
  \<open>readdirSync\<close> lists it, the names of the files of \<open>error-screenshots\<close>, whether the
  two directories can be written and the first one listed, and the first argument of
  every \<open>console.error\<close> call so far. Within one call the clock is read as one value;
  between calls the caller sets it. A file that is new to the directory is listed
  after the files already there.
\<close>

record world =
  iso_now :: string
  now :: int
  log_listable :: bool
  log_writable :: bool
  logs :: "log_file list"
  shot_writable :: bool
  shots :: "string list"
  console :: "string list"

definition console_error :: "world \<Rightarrow> string \<Rightarrow> world" where
  "console_error w line = w\<lparr>console := console w @ [line]\<rparr>"

text \<open>
  \<open>fs.writeFileSync\<close> into \<open>error-logs\<close>: it throws when the directory cannot be
  written; it replaces the file of that name if there is one and adds the file to the
  listing otherwise.
\<close>

definition put_file :: "log_file list \<Rightarrow> log_file \<Rightarrow> log_file list" where
  "put_file dir f =
     (if file_name f \<in> set (map file_name dir)
      then map (\<lambda>g. if file_name g = file_name f then f else g) dir
      else dir @ [f])"

definition writeFileSync :: "world \<Rightarrow> string \<Rightarrow> ErrorDetails \<Rightarrow> js_error + world" where
  "writeFileSync w name doc =
     (if \<not> log_writable w then Inl (NativeError ''EACCES: permission denied'')
      else Inr (w\<lparr>logs := put_file (logs w)
              \<lparr>file_name = name, mtime = now w, content = Document doc,
               can_stat = True, can_unlink = True\<rparr>\<rparr>))"

text \<open>\<open>fs.unlinkSync\<close>: the file of that name leaves the listing.\<close>

definition unlink :: "log_file list \<Rightarrow> string \<Rightarrow> log_file list" where
  "unlink dir name = filter (\<lambda>g. file_name g \<noteq> name) dir"

text \<open>\<open>readdirSync(errorLogPath).filter(file => file.endsWith('.json'))\<close>\<close>

definition json_files :: "log_file list \<Rightarrow> log_file list" where
  "json_files dir = filter (\<lambda>f. suffix ''.json'' (file_name f)) dir"

section \<open>ErrorReportingUtils\<close>

text \<open>
  An \<open>ErrorReportingUtils\<close> object holds the page it was constructed with
  (\<open>None\<close>: no page object was given) and two fixed paths under
  \<open>CONFIG.testResultsDir\<close>; every method below takes the page as \<open>pg\<close>. A promise
  that rejects with \<open>e\<close> is \<open>Inl e\<close>, one that resolves to \<open>v\<close> is \<open>Inr v\<close>.
\<close>

text \<open>\<open>getCurrentPageInfo\<close>: with no page object, \<open>this.page.url()\<close> throws inside the
  \<open>try\<close>.\<close>

definition getCurrentPageInfo :: "page option \<Rightarrow> string" where
  "getCurrentPageInfo pg =
     (case pg of
        None \<Rightarrow> ''Unable to get page info''
      | Some p \<Rightarrow>
          ''URL: '' @ page_url p @ '', Title: '' @
            (case page_title p of Inl e \<Rightarrow> ''Unknown'' | Inr t \<Rightarrow> t))"

text \<open>
  \<open>logErrorToFile\<close>. \<open>JSON.stringify(errorDetails, null, 2)\<close> throws when \<open>details\<close>
  holds a circular reference; otherwise the file holds the record after its trip
  through JSON (a \<open>details\<close> that is \<open>undefined\<close> is left out). Both failures are
  caught and logged.
\<close>

definition stringify_record :: "ErrorDetails \<Rightarrow> js_error + ErrorDetails" where
  "stringify_record errorDetails =
     (if \<not> serializable (details errorDetails)
      then Inl (NativeError ''Converting circular structure to JSON'')
      else Inr (errorDetails\<lparr>details :=
             (if details errorDetails = Undefined then Undefined
              else json_value (details errorDetails))\<rparr>))"

definition log_file_name :: "int \<Rightarrow> int \<Rightarrow> string" where
  "log_file_name c t = ''error_'' @ show_int c @ ''_'' @ show_int t @ ''.json''"

definition logErrorToFile :: "world \<Rightarrow> ErrorDetails \<Rightarrow> world" where
  "logErrorToFile w errorDetails =
     (let fileName = log_file_name (code errorDetails) (now w) in
      case stringify_record errorDetails of
        Inl e \<Rightarrow> console_error w ''Failed to write error log to file:''
      | Inr doc \<Rightarrow>
          (case writeFileSync w fileName doc of
             Inl e \<Rightarrow> console_error w ''Failed to write error log to file:''
           | Inr w' \<Rightarrow> w'))"

text \<open>
  The \<open>try\<close> block of \<open>reportError\<close> that takes the screenshot: skipped without a page
  object; \<open>page.screenshot\<close> rejects when the page does (a closed page) or when the
  directory cannot be written, which is caught and logged. The relative path is
  \<open>path.relative(CONFIG.testResultsDir, path.join(this.screenshotPath, name))\<close>, for
  a plain file name.
\<close>

definition take_screenshot :: "page option \<Rightarrow> world \<Rightarrow> string \<Rightarrow> world \<times> string option" where
  "take_screenshot pg w screenshotFileName =
     (case pg of
        None \<Rightarrow> (w, None)
      | Some p \<Rightarrow>
          (case page_screenshot p of
             Some e \<Rightarrow> (console_error w ''Failed to capture error screenshot:'', None)
           | None \<Rightarrow>
               if shot_writable w
               then (w\<lparr>shots := shots w @ [screenshotFileName]\<rparr>,
                     Some (''error-screenshots/'' @ screenshotFileName))
               else (console_error w ''Failed to capture error screenshot:'', None)))"

definition default_screenshot_name :: "ErrorCodeEntry \<Rightarrow> string \<Rightarrow> string" where
  "default_screenshot_name errorCode ts =
     category_name (category errorCode) @ ''_'' @ show_int (code errorCode) @ ''_'' @
       map (\<lambda>c. if c = CHR '':'' \<or> c = CHR ''.'' then CHR ''-'' else c) ts @ ''.png''"

definition report_line :: "ErrorCodeEntry \<Rightarrow> string" where
  "report_line errorCode =
     ''[ERROR '' @ show_int (code errorCode) @ ''] '' @ title errorCode @ '' ('' @
       category_name (category errorCode) @ ''): '' @ message errorCode"

text \<open>
  \<open>reportError\<close>. The second argument of its \<open>console.error\<close> call evaluates
  \<open>JSON.stringify(additionalDetails)\<close> when \<open>additionalDetails\<close> is truthy, outside
  every \<open>try\<close>: a throw there rejects the promise before the log file is written.
\<close>

definition reportError ::
  "page option \<Rightarrow> world \<Rightarrow> ErrorCodeEntry \<Rightarrow> jsval \<Rightarrow> string option
     \<Rightarrow> world \<times> (js_error + ErrorDetails)" where
  "reportError pg w errorCode additionalDetails screenshotName =
     (let ts = iso_now w;
          loc = getCurrentPageInfo pg;
          screenshotFileName =
            (case screenshotName of
               Some n \<Rightarrow> if n \<noteq> [] then n else default_screenshot_name errorCode ts
             | None \<Rightarrow> default_screenshot_name errorCode ts);
          (w1, screenshotRelativePath) = take_screenshot pg w screenshotFileName;
          errorDetails =
            \<lparr>code = code errorCode, category = category errorCode,
             message = message errorCode, title = title errorCode,
             details = additionalDetails, location = Some loc,
             screenshot = screenshotRelativePath, timestamp = Some ts\<rparr>
      in case (if truthy additionalDetails then JSON_stringify additionalDetails
               else Inr None) of
           Inl e \<Rightarrow> (w1, Inl e)
         | Inr s \<Rightarrow>
             (logErrorToFile (console_error w1 (report_line errorCode)) errorDetails,
              Inr errorDetails))"

text \<open>\<open>createError\<close>; \<open>additionalMessage\<close> is whatever \<open>handleError\<close> passes.\<close>

definition createError :: "ErrorCodeEntry \<Rightarrow> jsval \<Rightarrow> js_error" where
  "createError errorCode additionalMessage =
     ClassifiedError
       (if truthy additionalMessage
        then ''[ERROR '' @ show_int (code errorCode) @ ''] '' @ title errorCode @ '': '' @
               message errorCode @ '': '' @ to_string additionalMessage
        else ''[ERROR '' @ show_int (code errorCode) @ ''] '' @ title errorCode @ '': '' @
               message errorCode)
       (code errorCode) (category errorCode) (title errorCode)"

text \<open>\<open>handleError\<close>: the thrown error's extra message is
  \<open>additionalDetails?.message || JSON.stringify(additionalDetails)\<close>.\<close>

definition handleError ::
  "page option \<Rightarrow> world \<Rightarrow> ErrorCodeEntry \<Rightarrow> jsval \<Rightarrow> bool
     \<Rightarrow> world \<times> (js_error + ErrorDetails)" where
  "handleError pg w errorCode additionalDetails throwError =
     (case reportError pg w errorCode additionalDetails None of
        (w', Inl e) \<Rightarrow> (w', Inl e)
      | (w', Inr errorDetails) \<Rightarrow>
          if throwError then
            (if truthy (get_prop additionalDetails ''message'')
             then (w', Inl (createError errorCode (get_prop additionalDetails ''message'')))
             else
               (case JSON_stringify additionalDetails of
                  Inl e \<Rightarrow> (w', Inl e)
                | Inr None \<Rightarrow> (w', Inl (createError errorCode Undefined))
                | Inr (Some s) \<Rightarrow> (w', Inl (createError errorCode (Str s)))))
          else (w', Inr errorDetails))"

text \<open>
  \<open>getErrorStatistics\<close>. \<open>stats\<close> is the object built by the \<open>forEach\<close>, its keys in
  insertion order. One \<open>try\<close> encloses the listing and the whole loop: the first file
  that cannot be read or parsed ends the loop, and the counts made so far are
  returned.
\<close>

type_synonym stats = "(ErrorCategory \<times> int) list"

definition init_stats :: stats where
  "init_stats = map (\<lambda>c. (c, 0)) ErrorCategory_values"

definition increment :: "stats \<Rightarrow> ErrorCategory \<Rightarrow> stats" where
  "increment st c = map (\<lambda>(k, n). if k = c then (k, n + 1) else (k, n)) st"

fun count_loop :: "log_file list \<Rightarrow> stats \<Rightarrow> stats \<times> js_error option" where
  "count_loop [] st = (st, None)"
| "count_loop (f # fs) st =
     (case content f of
        Unreadable \<Rightarrow> (st, Some (NativeError ''EACCES: permission denied''))
      | Garbled \<Rightarrow> (st, Some (NativeError ''Unexpected token in JSON''))
      | Document errorLog \<Rightarrow> count_loop fs (increment st (category errorLog)))"

definition getErrorStatistics :: "world \<Rightarrow> world \<times> stats" where
  "getErrorStatistics w =
     (if \<not> log_listable w then (console_error w ''Failed to read error logs:'', init_stats)
      else
        (case count_loop (json_files (logs w)) init_stats of
           (st, None) \<Rightarrow> (w, st)
         | (st, Some e) \<Rightarrow> (console_error w ''Failed to read error logs:'', st)))"

text \<open>\<open>getErrorsByCategory\<close>, with the same single \<open>try\<close> around the loop.\<close>

fun collect_loop ::
  "ErrorCategory \<Rightarrow> log_file list \<Rightarrow> ErrorDetails list \<Rightarrow> ErrorDetails list \<times> js_error option"
where
  "collect_loop c [] errors = (errors, None)"
| "collect_loop c (f # fs) errors =
     (case content f of
        Unreadable \<Rightarrow> (errors, Some (NativeError ''EACCES: permission denied''))
      | Garbled \<Rightarrow> (errors, Some (NativeError ''Unexpected token in JSON''))
      | Document errorLog \<Rightarrow>
          collect_loop c fs (if category errorLog = c then errors @ [errorLog] else errors))"

definition getErrorsByCategory :: "world \<Rightarrow> ErrorCategory \<Rightarrow> world \<times> ErrorDetails list" where
  "getErrorsByCategory w c =
     (if \<not> log_listable w then (console_error w ''Failed to read error logs:'', [])
      else
        (case collect_loop c (json_files (logs w)) [] of
           (errors, None) \<Rightarrow> (w, errors)
         | (errors, Some e) \<Rightarrow> (console_error w ''Failed to read error logs:'', errors)))"

text \<open>
  \<open>generateAIMaintenanceReport\<close>. \<open>Array.prototype.sort\<close> is stable, so sorting the
  entries with the comparator \<open>b - a\<close> on the counts is the stable sort by descending
  count; \<open>[0][0]\<close> of an empty array would throw.
\<close>

record report =
  statistics :: stats
  mostFrequentCategory :: ErrorCategory
  topErrors :: "ErrorDetails list"
  totalErrors :: int
  generatedAt :: string

definition sort_desc :: "stats \<Rightarrow> stats" where
  "sort_desc st = sort_key (\<lambda>(c, n). - n) st"

definition generateAIMaintenanceReport :: "world \<Rightarrow> world \<times> (js_error + report)" where
  "generateAIMaintenanceReport w =
     (let (w1, st) = getErrorStatistics w in
      case sort_desc st of
        [] \<Rightarrow> (w1, Inl (NativeError ''Cannot read properties of undefined (reading 0)''))
      | (c, n) # rest \<Rightarrow>
          (let (w2, errors) = getErrorsByCategory w1 c in
           (w2, Inr \<lparr>statistics = st, mostFrequentCategory = c,
                     topErrors = take 10 errors,
                     totalErrors = sum_list (map snd st),
                     generatedAt = iso_now w2\<rparr>)))"

text \<open>
  \<open>clearOldErrorLogs\<close>, for a whole number of days. Again one \<open>try\<close> encloses the
  loop: a \<open>statSync\<close> or \<open>unlinkSync\<close> that throws ends it. The promise never
  rejects.
\<close>

fun prune_loop :: "int \<Rightarrow> log_file list \<Rightarrow> log_file list \<Rightarrow> log_file list \<times> js_error option"
where
  "prune_loop cutoffTime [] dir = (dir, None)"
| "prune_loop cutoffTime (f # fs) dir =
     (if \<not> can_stat f then (dir, Some (NativeError ''ENOENT: no such file or directory, stat''))
      else if mtime f < cutoffTime then
        (if can_unlink f then prune_loop cutoffTime fs (unlink dir (file_name f))
         else (dir, Some (NativeError ''EACCES: permission denied, unlink'')))
      else prune_loop cutoffTime fs dir)"

definition clearOldErrorLogs :: "world \<Rightarrow> int \<Rightarrow> world" where
  "clearOldErrorLogs w olderThanDays =
     (if \<not> log_listable w then console_error w ''Failed to clear old error logs:''
      else
        (let logFiles = json_files (logs w);
             cutoffTime = now w - olderThanDays * 24 * 60 * 60 * 1000
         in case prune_loop cutoffTime logFiles (logs w) of
              (dir, None) \<Rightarrow> w\<lparr>logs := dir\<rparr>
            | (dir, Some e) \<Rightarrow> console_error (w\<lparr>logs := dir\<rparr>) ''Failed to clear old error logs:''))"

section \<open>BasePage\<close>

text \<open>
  A \<open>BasePage\<close> holds the page, \<open>CONFIG.baseUrl\<close> and an \<open>ErrorReportingUtils\<close> made
  from the same page. \<open>new_URL\<close> is the constructor \<open>new URL(path, base)\<close> followed by
  \<open>toString()\<close>: it throws a \<open>TypeError\<close> on what it cannot parse. A call on a page
  object that is absent throws a \<open>TypeError\<close> inside the \<open>try\<close>. Whatever is thrown
  is an \<open>Error\<close> object, so that \<open>error.message\<close> in a \<open>catch\<close> block is a string.
\<close>

record BasePage =
  the_page :: "page option"
  baseUrl :: string

definition no_page_error :: js_error where
  "no_page_error = NativeError ''Cannot read properties of undefined''"

text \<open>The \<open>try\<close> block of \<open>navigate\<close>: \<open>None\<close> when it completes, the error it throws
  otherwise. The page is not called when the URL cannot be built.\<close>

definition try_goto ::
  "(string \<Rightarrow> string \<Rightarrow> js_error + string) \<Rightarrow> BasePage \<Rightarrow> string \<Rightarrow> js_error option" where
  "try_goto new_URL this path =
     (case new_URL path (baseUrl this) of
        Inl e \<Rightarrow> Some e
      | Inr url \<Rightarrow>
          (case the_page this of
             None \<Rightarrow> Some no_page_error
           | Some p \<Rightarrow> page_goto p url))"

text \<open>A locator call \<open>this.getLocator(selector).f()\<close> inside a \<open>try\<close>.\<close>

definition on_page :: "BasePage \<Rightarrow> (page \<Rightarrow> js_error + 'a) \<Rightarrow> js_error + 'a" where
  "on_page this f = (case the_page this of None \<Rightarrow> Inl no_page_error | Some p \<Rightarrow> f p)"

definition navigate ::
  "(string \<Rightarrow> string \<Rightarrow> js_error + string) \<Rightarrow> BasePage \<Rightarrow> world \<Rightarrow> string
     \<Rightarrow> world \<times> (js_error + unit)" where
  "navigate new_URL this w path =
     (case try_goto new_URL this path of
        None \<Rightarrow> (w, Inr ())
      | Some error \<Rightarrow>
          (case handleError (the_page this) w ERROR_NAVIGATION_FAILED
                  (Obj [(''path'', Str path), (''baseUrl'', Str (baseUrl this)),
                        (''error'', Str (error_message error))]) True of
             (w', Inl e) \<Rightarrow> (w', Inl e)
           | (w', Inr errorDetails) \<Rightarrow> (w', Inr ())))"

definition isVisible :: "BasePage \<Rightarrow> world \<Rightarrow> string \<Rightarrow> world \<times> (js_error + bool)" where
  "isVisible this w selector =
     (case on_page this (\<lambda>p. locator_isVisible p selector) of
        Inr b \<Rightarrow> (w, Inr b)
      | Inl error \<Rightarrow>
          (case reportError (the_page this) w ERROR_LOCATOR_NOT_FOUND
                  (Obj [(''selector'', Str selector), (''error'', Str (error_message error)),
                        (''action'', Str ''isVisible'')])
                  (Some (''element-not-found-'' @ show_int (now w) @ ''.png'')) of
             (w', Inl e) \<Rightarrow> (w', Inl e)
           | (w', Inr errorDetails) \<Rightarrow> (w', Inr False)))"

definition getText :: "BasePage \<Rightarrow> world \<Rightarrow> string \<Rightarrow> world \<times> (js_error + string)" where
  "getText this w selector =
     (case on_page this (\<lambda>p. locator_innerText p selector) of
        Inr t \<Rightarrow> (w, Inr t)
      | Inl error \<Rightarrow>
          (case reportError (the_page this) w ERROR_LOCATOR_NOT_FOUND
                  (Obj [(''selector'', Str selector), (''error'', Str (error_message error)),
                        (''action'', Str ''getText'')]) None of
             (w', Inl e) \<Rightarrow> (w', Inl e)
           | (w', Inr errorDetails) \<Rightarrow> (w', Inr [])))"

section \<open>Notions used in the statements\<close>

text \<open>
  The screenshot file name \<open>reportError\<close> settles on (\<open>screenshotName || ...\<close>) and the
  record it assembles.
\<close>

definition shot_name :: "ErrorCodeEntry \<Rightarrow> world \<Rightarrow> string option \<Rightarrow> string" where
  "shot_name ec w sn =
     (case sn of
        Some n \<Rightarrow> if n \<noteq> [] then n else default_screenshot_name ec (iso_now w)
      | None \<Rightarrow> default_screenshot_name ec (iso_now w))"

definition reported :: "page option \<Rightarrow> world \<Rightarrow> ErrorCodeEntry \<Rightarrow> jsval \<Rightarrow> string option \<Rightarrow> ErrorDetails" where
  "reported pg w ec d sn =
     \<lparr>code = code ec, category = category ec, message = message ec, title = title ec,
      details = d, location = Some (getCurrentPageInfo pg),
      screenshot = snd (take_screenshot pg w (shot_name ec w sn)),
      timestamp = Some (iso_now w)\<rparr>"

text \<open>
  The fixed part of the message \<open>createError\<close> builds, and the value \<open>handleError\<close>
  passes it as \<open>additionalMessage\<close> when \<open>JSON.stringify\<close> does not throw.
\<close>

definition error_head :: "ErrorCodeEntry \<Rightarrow> string" where
  "error_head ec =
     ''[ERROR '' @ show_int (code ec) @ ''] '' @ title ec @ '': '' @ message ec"

definition extra_message :: "jsval \<Rightarrow> jsval" where
  "extra_message d =
     (if truthy (get_prop d ''message'') then get_prop d ''message''
      else if d = Undefined then Undefined
      else Str (json_text d))"

text \<open>Reading a file of \<open>error-logs\<close> back by its name.\<close>

definition read_log :: "world \<Rightarrow> string \<Rightarrow> file_content option" where
  "read_log w name = map_option content (find (\<lambda>f. file_name f = name) (logs w))"

text \<open>
  Payloads that JSON represents as they are: \<open>null\<close>, booleans, numbers, strings,
  arrays and plain objects of such values.
\<close>

fun json_exact :: "jsval \<Rightarrow> bool" where
  "json_exact Undefined = False"
| "json_exact NaN = False"
| "json_exact Ref = False"
| "json_exact (Arr xs) = list_all json_exact xs"
| "json_exact (Obj kvs) = list_all (\<lambda>(k, v). json_exact v) kvs"
| "json_exact v = True"

text \<open>The details objects \<open>navigate\<close>, \<open>isVisible\<close> and \<open>getText\<close> build in their
  \<open>catch\<close> blocks.\<close>

definition nav_details :: "BasePage \<Rightarrow> string \<Rightarrow> js_error \<Rightarrow> jsval" where
  "nav_details this path error =
     Obj [(''path'', Str path), (''baseUrl'', Str (baseUrl this)),
          (''error'', Str (error_message error))]"

definition visible_details :: "string \<Rightarrow> js_error \<Rightarrow> jsval" where
  "visible_details selector error =
     Obj [(''selector'', Str selector), (''error'', Str (error_message error)),
          (''action'', Str ''isVisible'')]"

definition text_details :: "string \<Rightarrow> js_error \<Rightarrow> jsval" where
  "text_details selector error =
     Obj [(''selector'', Str selector), (''error'', Str (error_message error)),
          (''action'', Str ''getText'')]"

text \<open>
  The records a scan of the directory can reach: \<open>documents\<close> are the valid records
  among some files, \<open>scanned\<close> the \<open>.json\<close> files listed before the first one that
  cannot be read or parsed.
\<close>

definition is_document :: "log_file \<Rightarrow> bool" where
  "is_document f = (case content f of Document d \<Rightarrow> True | Unreadable \<Rightarrow> False | Garbled \<Rightarrow> False)"

fun documents :: "log_file list \<Rightarrow> ErrorDetails list" where
  "documents [] = []"
| "documents (f # fs) =
     (case content f of Document d \<Rightarrow> d # documents fs
      | Unreadable \<Rightarrow> documents fs | Garbled \<Rightarrow> documents fs)"

definition scanned :: "world \<Rightarrow> log_file list" where
  "scanned w = (if log_listable w then takeWhile is_document (json_files (logs w)) else [])"

text \<open>
  The cutoff \<open>clearOldErrorLogs\<close> computes; \<open>body_ok\<close>: the loop body does not throw
  on the file; \<open>doomed\<close>: the files the loop deletes, those older than the cutoff among
  the files before the first one on which the body throws.
\<close>

definition cutoff_of :: "world \<Rightarrow> int \<Rightarrow> int" where
  "cutoff_of w olderThanDays = now w - olderThanDays * 24 * 60 * 60 * 1000"

definition body_ok :: "int \<Rightarrow> log_file \<Rightarrow> bool" where
  "body_ok cutoffTime f = (can_stat f \<and> (mtime f < cutoffTime \<longrightarrow> can_unlink f))"

definition doomed :: "int \<Rightarrow> log_file list \<Rightarrow> log_file list" where
  "doomed cutoffTime fs = filter (\<lambda>f. mtime f < cutoffTime) (takeWhile (body_ok cutoffTime) fs)"

section \<open>Sample inputs\<close>

text \<open>
  A worker whose two directories exist, are empty and can be written, at
  2024-05-01T10:00:00Z; a page that was closed before the call (every call on it but
  \<open>url()\<close> rejects) and a page object on it; a \<open>URL\<close> constructor that rejects every
  path.
\<close>

definition w0 :: world where
  "w0 = \<lparr>iso_now = ''2024-05-01T10:00:00.000Z'', now = 1714557600000, log_listable = True,
          log_writable = True, logs = [], shot_writable = True, shots = [], console = []\<rparr>"

definition closed_page :: page where
  "closed_page =
     \<lparr>page_url = ''https://www.saucedemo.com/'',
      page_title = Inl (NativeError ''Target page, context or browser has been closed''),
      page_screenshot = Some (NativeError ''Target page, context or browser has been closed''),
      page_goto = (\<lambda>u. Some (NativeError ''Target page, context or browser has been closed'')),
      locator_isVisible =
        (\<lambda>s. Inl (NativeError ''Target page, context or browser has been closed'')),
      locator_innerText =
        (\<lambda>s. Inl (NativeError ''Target page, context or browser has been closed''))\<rparr>"

definition login_page :: BasePage where
  "login_page = \<lparr>the_page = Some closed_page, baseUrl = ''not a url''\<rparr>"

definition bad_URL :: "string \<Rightarrow> string \<Rightarrow> js_error + string" where
  "bad_URL path base = Inl (NativeError ''Invalid URL'')"

text \<open>
  Payloads: the object built by \<open>const d = {}; d.self = d\<close>, the details of a network
  timeout, and an object holding \<open>NaN\<close>.
\<close>

definition circular :: jsval where
  "circular = Obj [(''self'', Ref)]"

definition timeout_details :: jsval where
  "timeout_details = Obj [(''url'', Str ''https://x''), (''timeoutMs'', Num 5000)]"

definition nan_details :: jsval where
  "nan_details = Obj [(''ratio'', NaN)]"

text \<open>
  Record files as \<open>reportError\<close> writes them on a worker without page, a file that does
  not parse, a file that \<open>statSync\<close> fails on, and directories made of them.
\<close>

definition record_of :: "ErrorCodeEntry \<Rightarrow> ErrorDetails" where
  "record_of ec = reported None w0 ec Undefined None"

definition record_file :: "string \<Rightarrow> int \<Rightarrow> ErrorCodeEntry \<Rightarrow> log_file" where
  "record_file name t ec =
     \<lparr>file_name = name, mtime = t, content = Document (record_of ec),
      can_stat = True, can_unlink = True\<rparr>"

definition garbled_file :: "string \<Rightarrow> int \<Rightarrow> log_file" where
  "garbled_file name t =
     \<lparr>file_name = name, mtime = t, content = Garbled, can_stat = True, can_unlink = True\<rparr>"

definition unstatable :: log_file where
  "unstatable = (record_file ''error_2001_2.json'' 0 ERROR_LOCATOR_NOT_FOUND)\<lparr>can_stat := False\<rparr>"

definition garbled_first :: world where
  "garbled_first =
     w0\<lparr>logs := [garbled_file ''error_1001_1.json'' 1,
                  record_file ''error_1001_2.json'' 2 ERROR_INVALID_DATA]\<rparr>"

definition garbled_middle :: world where
  "garbled_middle =
     w0\<lparr>logs := [record_file ''error_1001_1.json'' 1 ERROR_INVALID_DATA,
                  garbled_file ''error_1001_2.json'' 2,
                  record_file ''error_1001_3.json'' 3 ERROR_INVALID_DATA]\<rparr>"

definition two_records :: world where
  "two_records =
     w0\<lparr>logs := [record_file ''error_1001_1.json'' 1 ERROR_INVALID_DATA,
                  record_file ''error_6001_2.json'' 2 ERROR_AUTH_FAILED]\<rparr>"

definition old_and_new :: world where
  "old_and_new =
     w0\<lparr>logs := [record_file ''error_1001_1.json'' 1711965599999 ERROR_INVALID_DATA,
                  record_file ''error_2001_2.json'' 1711965600000 ERROR_LOCATOR_NOT_FOUND,
                  record_file ''error_6001_3.json'' 1714557600000 ERROR_AUTH_FAILED]\<rparr>"

definition stat_fails :: world where
  "stat_fails =
     w0\<lparr>logs := [unstatable, record_file ''error_6001_3.json'' 0 ERROR_AUTH_FAILED]\<rparr>"

definition stat_fails_later :: world where
  "stat_fails_later =
     w0\<lparr>logs := [record_file ''error_1001_1.json'' 0 ERROR_INVALID_DATA, unstatable,
                  record_file ''error_6001_3.json'' 0 ERROR_AUTH_FAILED]\<rparr>"

text \<open>
  A call \<open>reportError(errorCode)\<close> on a worker without page at clock time \<open>t\<close>, and
  the world after 4 \<open>ELEMENT\<close>, 2 \<open>NAVIGATION\<close> and 1 \<open>AUTH\<close> reports into the empty
  directory, one millisecond apart.
\<close>

definition report_at :: "int \<Rightarrow> ErrorCodeEntry \<Rightarrow> world \<Rightarrow> world" where
  "report_at t ec w = fst (reportError None (w\<lparr>now := t\<rparr>) ec Undefined None)"

definition scenario :: world where
  "scenario =
     report_at 1714557600007 ERROR_AUTH_FAILED
      (report_at 1714557600006 ERROR_NAVIGATION_FAILED
        (report_at 1714557600005 ERROR_NAVIGATION_FAILED
          (report_at 1714557600004 ERROR_ELEMENT_NOT_VISIBLE
            (report_at 1714557600003 ERROR_ELEMENT_NOT_VISIBLE
              (report_at 1714557600002 ERROR_LOCATOR_NOT_FOUND
                (report_at 1714557600001 ERROR_LOCATOR_NOT_FOUND w0))))))"

section \<open>Auxiliary facts\<close>

lemma ErrorCode_codes:
  "map (\<lambda>p. code (snd p)) ErrorCode =
     [1001, 1002, 1003, 1004, 2001, 2002, 2003, 2004, 2007, 2005, 2006,
      3001, 3002, 3003, 3004, 4001, 4002, 4003, 4004, 4005, 5001, 5002, 5003,
      6001, 6002, 6003, 7001, 7002, 8001, 8002, 9001, 9002, 10001, 10002, 99999]"
  by (simp add: ErrorCode_def entry_def ERROR_INVALID_DATA_def ERROR_LOCATOR_NOT_FOUND_def
      ERROR_ELEMENT_NOT_VISIBLE_def ERROR_NAVIGATION_FAILED_def ERROR_AUTH_FAILED_def
      ERROR_NETWORK_TIMEOUT_def)

lemma ErrorCode_names_distinct: "distinct (map fst ErrorCode)"
  by (simp add: ErrorCode_def)

lemma ErrorCode_codes_distinct: "distinct (map (\<lambda>p. code (snd p)) ErrorCode)"
  unfolding ErrorCode_codes by simp

lemma falsy_serializable: "\<not> truthy d \<Longrightarrow> serializable d"
  by (cases d) simp_all

lemma stringify_args_ok:
  "serializable d \<Longrightarrow>
     \<exists>s. (if truthy d then JSON_stringify d else Inr None) = Inr s"
  by (simp add: JSON_stringify_def)

lemma take_screenshot_None [simp]: "take_screenshot None w n = (w, None)"
  by (simp add: take_screenshot_def)

lemma take_screenshot_fails:
  "page_screenshot p \<noteq> None \<or> \<not> shot_writable w \<Longrightarrow>
     snd (take_screenshot (Some p) w n) = None"
  by (auto simp: take_screenshot_def split: option.splits)

lemma take_screenshot_logs [simp]: "logs (fst (take_screenshot pg w n)) = logs w"
  by (auto simp: take_screenshot_def console_error_def split: option.splits)

lemma take_screenshot_log_writable [simp]:
  "log_writable (fst (take_screenshot pg w n)) = log_writable w"
  by (auto simp: take_screenshot_def console_error_def split: option.splits)

lemma take_screenshot_now [simp]: "now (fst (take_screenshot pg w n)) = now w"
  by (auto simp: take_screenshot_def console_error_def split: option.splits)

lemma reportError_serializable:
  assumes "serializable d"
  shows "reportError pg w ec d sn =
           (logErrorToFile
              (console_error (fst (take_screenshot pg w (shot_name ec w sn))) (report_line ec))
              (reported pg w ec d sn),
            Inr (reported pg w ec d sn))"
  using assms
  by (simp add: reportError_def JSON_stringify_def Let_def shot_name_def reported_def
      split: prod.splits)

lemma reportError_circular:
  assumes "truthy d" "\<not> serializable d"
  shows "reportError pg w ec d sn =
           (fst (take_screenshot pg w (shot_name ec w sn)),
            Inl (NativeError ''Converting circular structure to JSON''))"
  using assms
  by (simp add: reportError_def JSON_stringify_def Let_def shot_name_def
      split: prod.splits)

lemma logErrorToFile_unwritable:
  "\<not> log_writable w \<Longrightarrow> logs (logErrorToFile w ed) = logs w"
  by (simp add: logErrorToFile_def writeFileSync_def console_error_def Let_def
      split: sum.splits)

lemma logErrorToFile_writable:
  "log_writable w \<Longrightarrow> serializable (details ed) \<Longrightarrow>
   logs (logErrorToFile w ed) =
     put_file (logs w)
       \<lparr>file_name = log_file_name (code ed) (now w), mtime = now w,
        content = Document (ed\<lparr>details :=
            (if details ed = Undefined then Undefined else json_value (details ed))\<rparr>),
        can_stat = True, can_unlink = True\<rparr>"
  by (simp add: logErrorToFile_def writeFileSync_def stringify_record_def Let_def)

lemma digits_nonempty: "digits n \<noteq> []"
  by (subst digits.simps) simp

lemma show_int_nonempty: "show_int i \<noteq> []"
  by (simp add: show_int_def digits_nonempty)

lemma json_text_nonempty: "serializable d \<Longrightarrow> json_text d \<noteq> []"
  by (cases d) (simp_all add: show_int_nonempty json_quote_def)

lemma createError_message:
  "createError ec am =
     ClassifiedError (if truthy am then error_head ec @ '': '' @ to_string am else error_head ec)
       (code ec) (category ec) (title ec)"
  by (simp add: createError_def error_head_def)

lemma handleError_serializable:
  assumes "serializable d"
  shows "handleError pg w ec d throwError =
           (fst (reportError pg w ec d None),
            if throwError then Inl (createError ec (extra_message d))
            else Inr (reported pg w ec d None))"
  using assms
  by (simp add: handleError_def reportError_serializable JSON_stringify_def extra_message_def)

lemma error_head_embeds:
  "sublist (show_int (code ec)) (error_head ec)"
  "sublist (title ec) (error_head ec)"
  "sublist (message ec) (error_head ec)"
proof -
  show "sublist (show_int (code ec)) (error_head ec)"
    unfolding error_head_def sublist_def by blast
  have "error_head ec = (''[ERROR '' @ show_int (code ec) @ ''] '') @ title ec @ ('': '' @ message ec)"
    by (simp add: error_head_def)
  then show "sublist (title ec) (error_head ec)"
    unfolding sublist_def by blast
  have "error_head ec = (''[ERROR '' @ show_int (code ec) @ ''] '' @ title ec @ '': '') @ message ec @ []"
    by (simp add: error_head_def)
  then show "sublist (message ec) (error_head ec)"
    unfolding sublist_def by blast
qed

lemma reportError_logs:
  assumes "serializable d"
  shows "logs (fst (reportError pg w ec d sn)) =
           (if log_writable w
            then put_file (logs w)
                   \<lparr>file_name = log_file_name (code ec) (now w), mtime = now w,
                    content = Document ((reported pg w ec d sn)\<lparr>details :=
                       (if d = Undefined then Undefined else json_value d)\<rparr>),
                    can_stat = True, can_unlink = True\<rparr>
            else logs w)"
proof (cases "log_writable w")
  case True
  then show ?thesis
    using assms
    by (simp add: reportError_serializable logErrorToFile_writable console_error_def
        reported_def)
next
  case False
  then show ?thesis
    using assms
    by (simp add: reportError_serializable logErrorToFile_unwritable console_error_def)
qed

lemma length_put_file:
  "length (put_file dir f) =
     (if file_name f \<in> file_name ` set dir then length dir else Suc (length dir))"
  by (simp add: put_file_def)

lemmas show_int_eval = show_int_def digits.simps digit_char_def

lemma c3_eval:
  "handleError None w0 ERROR_INVALID_DATA (Obj [(''message'', Str ''boom'')]) True =
     (fst (reportError None w0 ERROR_INVALID_DATA (Obj [(''message'', Str ''boom'')]) None),
      Inl (ClassifiedError ''[ERROR 1001] Invalid Data: Invalid test data provided: boom''
             1001 DATA ''Invalid Data''))"
  by (simp add: handleError_serializable createError_def extra_message_def
      ERROR_INVALID_DATA_def entry_def show_int_eval)

lemma json_exact_fixed: "json_exact d \<Longrightarrow> json_value d = d \<and> serializable d"
proof (induction d)
  case (Arr xs)
  then show ?case by (auto simp: list_all_iff intro: map_idI)
next
  case (Obj kvs)
  have "\<And>k v. (k, v) \<in> set kvs \<Longrightarrow> json_value v = v \<and> serializable v \<and> v \<noteq> Undefined"
  proof -
    fix k v assume kv: "(k, v) \<in> set kvs"
    with Obj.prems have e: "json_exact v" by (auto simp: list_all_iff)
    have "v \<in> Basic_BNFs.snds (k, v)" by simp
    with Obj.IH kv e have "json_value v = v \<and> serializable v" by blast
    moreover from e have "v \<noteq> Undefined" by auto
    ultimately show "json_value v = v \<and> serializable v \<and> v \<noteq> Undefined" by simp
  qed
  then have f: "filter (\<lambda>(k, v). v \<noteq> Undefined) kvs = kvs"
    and m: "map (\<lambda>(k, v). (k, json_value v)) kvs = kvs"
    and s: "list_all (\<lambda>(k, v). serializable v) kvs"
    by (auto simp: list_all_iff intro!: map_idI filter_True)
  then show ?case by simp
qed simp_all

lemma find_append: "find P (xs @ ys) = (case find P xs of None \<Rightarrow> find P ys | Some x \<Rightarrow> Some x)"
  by (induction xs) auto

lemma find_put_file:
  "find (\<lambda>g. file_name g = file_name f) (put_file dir f) = Some f"
proof (cases "file_name f \<in> set (map file_name dir)")
  case True
  then have "find (\<lambda>g. file_name g = file_name f)
               (map (\<lambda>g. if file_name g = file_name f then f else g) dir) = Some f"
    by (induction dir) auto
  with True show ?thesis by (simp add: put_file_def)
next
  case False
  then have "find (\<lambda>g. file_name g = file_name f) dir = None"
    by (auto simp: find_None_iff image_iff)
  with False show ?thesis by (simp add: put_file_def find_append)
qed

lemma report_details_serializable [simp]:
  "serializable (Obj [(k1, Str a), (k2, Str b), (k3, Str c)])"
  by simp

lemma logErrorToFile_console:
  "set (console w) \<subseteq> set (console (logErrorToFile w ed))"
  by (auto simp: logErrorToFile_def writeFileSync_def console_error_def Let_def
      split: sum.splits if_splits)

lemma reportError_console:
  "serializable d \<Longrightarrow> report_line ec \<in> set (console (fst (reportError pg w ec d sn)))"
  using logErrorToFile_console
  by (fastforce simp: reportError_serializable console_error_def)

lemma navigate_throws:
  assumes "try_goto new_URL this path = Some error"
  shows "navigate new_URL this w path =
           (fst (reportError (the_page this) w ERROR_NAVIGATION_FAILED
                   (nav_details this path error) None),
            Inl (createError ERROR_NAVIGATION_FAILED (extra_message (nav_details this path error))))"
  using assms
  by (simp add: navigate_def handleError_serializable nav_details_def)

lemma reportError_persisted:
  assumes "serializable d" and "log_writable w"
  shows "\<exists>ed. read_log (fst (reportError pg w ec d sn)) (log_file_name (code ec) (now w)) =
                Some (Document ed)
              \<and> code ed = code ec \<and> category ed = category ec"
proof -
  let ?f = "\<lparr>file_name = log_file_name (code ec) (now w), mtime = now w,
             content = Document ((reported pg w ec d sn)\<lparr>details :=
                       (if d = Undefined then Undefined else json_value d)\<rparr>),
             can_stat = True, can_unlink = True\<rparr>"
  have "logs (fst (reportError pg w ec d sn)) = put_file (logs w) ?f"
    using assms(2) by (simp add: reportError_logs [OF assms(1)])
  then have "read_log (fst (reportError pg w ec d sn)) (log_file_name (code ec) (now w)) =
      Some (content ?f)"
    using find_put_file [of ?f "logs w"] by (simp add: read_log_def)
  then show ?thesis by (simp add: reported_def)
qed

lemma isVisible_fails:
  assumes "on_page this (\<lambda>p. locator_isVisible p selector) = Inl e"
  shows "isVisible this w selector =
           (fst (reportError (the_page this) w ERROR_LOCATOR_NOT_FOUND
                   (visible_details selector e)
                   (Some (''element-not-found-'' @ show_int (now w) @ ''.png''))),
            Inr False)"
  using assms
  by (simp add: isVisible_def visible_details_def reportError_serializable)

lemma getText_fails:
  assumes "on_page this (\<lambda>p. locator_innerText p selector) = Inl e"
  shows "getText this w selector =
           (fst (reportError (the_page this) w ERROR_LOCATOR_NOT_FOUND
                   (text_details selector e) None),
            Inr [])"
  using assms
  by (simp add: getText_def text_details_def reportError_serializable)

lemma all_categories: "c \<in> set ErrorCategory_values"
  by (cases c) (simp_all add: ErrorCategory_values_def)

lemma init_stats_keys: "map fst init_stats = ErrorCategory_values"
  by (simp add: init_stats_def comp_def)

lemma distinct_categories: "distinct ErrorCategory_values"
  by (simp add: ErrorCategory_values_def)

lemma init_stats_zero: "map_of init_stats c = Some 0"
proof -
  have "(c, 0) \<in> set init_stats"
    using all_categories [of c] by (auto simp: init_stats_def)
  moreover have "distinct (map fst init_stats)"
    by (simp add: init_stats_keys distinct_categories)
  ultimately show ?thesis by simp
qed

lemma init_stats_sum: "sum_list (map snd init_stats) = 0"
  by (simp add: init_stats_def ErrorCategory_values_def)

lemma increment_keys [simp]: "map fst (increment st c) = map fst st"
  by (induction st) (auto simp: increment_def)

lemma increment_map_of:
  "map_of (increment st c) k =
     (if k = c then map_option (\<lambda>n. n + 1) (map_of st k) else map_of st k)"
  by (induction st) (auto simp: increment_def)

lemma increment_absent: "c \<notin> fst ` set st \<Longrightarrow> increment st c = st"
  by (induction st) (auto simp: increment_def)

lemma increment_nonneg:
  "\<forall>(k, n) \<in> set st. 0 \<le> n \<Longrightarrow> \<forall>(k, n) \<in> set (increment st c). 0 \<le> n"
  by (induction st) (auto simp: increment_def split: if_splits)

lemma increment_sum:
  "distinct (map fst st) \<Longrightarrow> c \<in> fst ` set st \<Longrightarrow>
     sum_list (map snd (increment st c)) = sum_list (map snd st) + 1"
proof (induction st)
  case Nil
  then show ?case by simp
next
  case (Cons a st)
  obtain k n where a: "a = (k, n)" by (cases a)
  show ?case
  proof (cases "k = c")
    case True
    with Cons.prems a have "c \<notin> fst ` set st" by auto
    then have "increment st c = st"
      by (rule increment_absent)
    with True a show ?thesis by (simp add: increment_def)
  next
    case False
    with Cons a show ?thesis by (auto simp: increment_def)
  qed
qed

lemma count_loop_fst:
  "fst (count_loop fs st) =
     foldl increment st (map category (documents (takeWhile is_document fs)))"
  by (induction fs arbitrary: st) (auto simp: is_document_def split: file_content.splits)

lemma count_loop_snd:
  "(snd (count_loop fs st) = None) = list_all is_document fs"
  by (induction fs arbitrary: st) (auto simp: is_document_def split: file_content.splits)

lemma foldl_increment_keys [simp]: "map fst (foldl increment st cs) = map fst st"
  by (induction cs arbitrary: st) simp_all

lemma foldl_increment_map_of:
  "map_of (foldl increment st cs) k =
     map_option (\<lambda>n. n + int (length (filter (\<lambda>x. x = k) cs))) (map_of st k)"
proof (induction cs arbitrary: st)
  case Nil
  then show ?case by (simp add: option.map_ident)
next
  case (Cons c cs)
  show ?case
    by (simp add: Cons.IH increment_map_of option.map_comp comp_def add.assoc)
qed

lemma foldl_increment_sum:
  "distinct (map fst st) \<Longrightarrow> set cs \<subseteq> fst ` set st \<Longrightarrow>
     sum_list (map snd (foldl increment st cs)) = sum_list (map snd st) + int (length cs)"
proof (induction cs arbitrary: st)
  case Nil
  then show ?case by simp
next
  case (Cons c cs)
  have k: "fst ` set (increment st c) = fst ` set st"
    using increment_keys [of st c] by (metis set_map)
  have "sum_list (map snd (foldl increment (increment st c) cs)) =
          sum_list (map snd (increment st c)) + int (length cs)"
    using Cons.prems by (intro Cons.IH) (simp_all add: k)
  with Cons.prems show ?case by (simp add: increment_sum)
qed

lemma foldl_increment_nonneg:
  "\<forall>(c, n) \<in> set st. 0 \<le> n \<Longrightarrow> \<forall>(c, n) \<in> set (foldl increment st cs). 0 \<le> n"
proof (induction cs arbitrary: st)
  case Nil
  then show ?case by simp
next
  case (Cons c cs)
  have "\<forall>(k, n) \<in> set (increment st c). 0 \<le> n"
    using Cons.prems by (rule increment_nonneg)
  then show ?case using Cons.IH by simp
qed

lemma length_documents_takeWhile:
  "length (documents (takeWhile is_document fs)) = length (takeWhile is_document fs)"
  by (induction fs) (auto simp: is_document_def split: file_content.splits)

lemma takeWhile_all: "list_all P xs \<Longrightarrow> takeWhile P xs = xs"
  by (induction xs) auto

lemma getErrorStatistics_stats:
  "snd (getErrorStatistics w) =
     foldl increment init_stats (map category (documents (scanned w)))"
proof (cases "log_listable w")
  case True
  have "snd (getErrorStatistics w) = fst (count_loop (json_files (logs w)) init_stats)"
    using True by (simp add: getErrorStatistics_def split: prod.splits option.splits)
  then show ?thesis using True by (simp add: count_loop_fst scanned_def)
next
  case False
  then show ?thesis by (simp add: getErrorStatistics_def scanned_def)
qed

lemma getErrorStatistics_world:
  "fst (getErrorStatistics w) =
     (if log_listable w \<and> list_all is_document (json_files (logs w)) then w
      else console_error w ''Failed to read error logs:'')"
proof (cases "log_listable w")
  case True
  obtain st e where c: "count_loop (json_files (logs w)) init_stats = (st, e)"
    by (cases "count_loop (json_files (logs w)) init_stats")
  then have "(e = None) = list_all is_document (json_files (logs w))"
    using count_loop_snd [of "json_files (logs w)" init_stats] by simp
  with True c show ?thesis by (cases e) (simp_all add: getErrorStatistics_def)
next
  case False
  then show ?thesis by (simp add: getErrorStatistics_def)
qed

lemma json_name [simp]: "suffix ''.json'' (xs @ ''.json'')"
  by (simp add: suffix_def)

lemma file_simps [simp]:
  "file_name (record_file name t ec) = name" "mtime (record_file name t ec) = t"
  "content (record_file name t ec) = Document (record_of ec)"
  "can_stat (record_file name t ec)" "can_unlink (record_file name t ec)"
  "is_document (record_file name t ec)"
  "file_name (garbled_file name t) = name" "mtime (garbled_file name t) = t"
  "content (garbled_file name t) = Garbled"
  "\<not> is_document (garbled_file name t)"
  by (simp_all add: record_file_def garbled_file_def is_document_def)

lemma suffix_eval: "suffix xs ys = prefix (rev xs) (rev ys)"
  by (rule suffix_to_prefix)

lemma collect_loop_fst:
  "fst (collect_loop c fs acc) =
     acc @ filter (\<lambda>d. category d = c) (documents (takeWhile is_document fs))"
  by (induction fs arbitrary: acc) (auto simp: is_document_def split: file_content.splits)

lemma getErrorsByCategory_errors:
  "snd (getErrorsByCategory w c) = filter (\<lambda>d. category d = c) (documents (scanned w))"
proof (cases "log_listable w")
  case True
  have "snd (getErrorsByCategory w c) = fst (collect_loop c (json_files (logs w)) [])"
    using True by (simp add: getErrorsByCategory_def split: prod.splits option.splits)
  then show ?thesis using True by (simp add: collect_loop_fst scanned_def)
next
  case False
  then show ?thesis by (simp add: getErrorsByCategory_def scanned_def)
qed

lemma scanned_console [simp]: "scanned (console_error w line) = scanned w"
  by (simp add: scanned_def console_error_def)

lemma scanned_after_statistics [simp]: "scanned (fst (getErrorStatistics w)) = scanned w"
  by (simp add: getErrorStatistics_world)

lemma sort_desc_head:
  assumes "sort_desc st = (c, n) # rest"
  shows "\<exists>pre post. st = pre @ (c, n) # post
           \<and> (\<forall>(c', n') \<in> set pre. n' < n) \<and> (\<forall>(c', n') \<in> set post. n' \<le> n)"
proof -
  let ?key = "\<lambda>(c, n). - (n::int)"
  let ?s = "sort_key ?key st"
  have s: "?s = (c, n) # rest" using assms by (simp add: sort_desc_def)
  have "sorted (map ?key ?s)" by (rule sorted_sort_key)
  then have le: "\<forall>y \<in> set ?s. ?key (c, n) \<le> ?key y" unfolding s by auto
  then have max: "\<forall>(c', n') \<in> set st. n' \<le> n" by auto
  have "filter (\<lambda>y. ?key y = ?key (c, n)) ?s = (c, n) # filter (\<lambda>y. ?key y = ?key (c, n)) rest"
    unfolding s by simp
  then have "filter (\<lambda>y. ?key y = ?key (c, n)) st =
      (c, n) # filter (\<lambda>y. ?key y = ?key (c, n)) rest"
    by (simp add: sort_key_stable)
  then obtain pre post where st: "st = pre @ (c, n) # post"
    and pre: "\<forall>u \<in> set pre. ?key u \<noteq> ?key (c, n)"
    unfolding filter_eq_Cons_iff by blast
  have "\<forall>(c', n') \<in> set pre. n' < n"
  proof clarify
    fix c' n' assume m: "(c', n') \<in> set pre"
    with pre have "?key (c', n') \<noteq> ?key (c, n)" by blast
    moreover from m max st have "n' \<le> n" by auto
    ultimately show "n' < n" by simp
  qed
  moreover have "\<forall>(c', n') \<in> set post. n' \<le> n"
    using max st by auto
  ultimately show ?thesis using st by blast
qed

lemma sort_desc_nonempty: "st \<noteq> [] \<Longrightarrow> sort_desc st \<noteq> []"
  by (metis length_0_conv length_sort sort_desc_def)

lemma statistics_nonempty: "snd (getErrorStatistics w) \<noteq> []"
proof -
  have "map fst (snd (getErrorStatistics w)) = ErrorCategory_values"
    by (simp add: getErrorStatistics_stats init_stats_keys)
  then show ?thesis by (auto simp: ErrorCategory_values_def)
qed

lemma statistics_count:
  assumes "(c, n) \<in> set (snd (getErrorStatistics w))"
  shows "n = int (length (filter (\<lambda>d. category d = c) (documents (scanned w))))"
proof -
  have "distinct (map fst (snd (getErrorStatistics w)))"
    by (simp add: getErrorStatistics_stats init_stats_keys distinct_categories)
  with assms have "map_of (snd (getErrorStatistics w)) c = Some n" by simp
  moreover have "map_of (snd (getErrorStatistics w)) c =
      Some (int (length (filter (\<lambda>d. category d = c) (documents (scanned w)))))"
    by (simp add: getErrorStatistics_stats foldl_increment_map_of init_stats_zero
        filter_map comp_def)
  ultimately show ?thesis by simp
qed

lemma generate_report:
  assumes "sort_desc (snd (getErrorStatistics w)) = (c, n) # rest"
  shows "snd (generateAIMaintenanceReport w) =
           Inr \<lparr>statistics = snd (getErrorStatistics w), mostFrequentCategory = c,
                topErrors = take 10 (filter (\<lambda>d. category d = c) (documents (scanned w))),
                totalErrors = sum_list (map snd (snd (getErrorStatistics w))),
                generatedAt = iso_now w\<rparr>"
proof -
  have iso: "iso_now (fst (getErrorsByCategory (fst (getErrorStatistics w)) c)) = iso_now w"
    by (simp add: getErrorsByCategory_def getErrorStatistics_world console_error_def
        split: prod.splits option.splits)
  have e: "snd (getErrorsByCategory (fst (getErrorStatistics w)) c) =
      filter (\<lambda>d. category d = c) (documents (scanned w))"
    by (simp add: getErrorsByCategory_errors)
  obtain w1 st where g: "getErrorStatistics w = (w1, st)"
    by (cases "getErrorStatistics w")
  obtain w2 errors where h: "getErrorsByCategory w1 c = (w2, errors)"
    by (cases "getErrorsByCategory w1 c")
  have errors: "errors = filter (\<lambda>d. category d = c) (documents (scanned w))"
    using e g h by simp
  have w2: "iso_now w2 = iso_now w" using iso g h by simp
  have st: "sort_desc st = (c, n) # rest" using assms g by simp
  have "generateAIMaintenanceReport w =
      (w2, Inr \<lparr>statistics = st, mostFrequentCategory = c, topErrors = take 10 errors,
                  totalErrors = sum_list (map snd st), generatedAt = iso_now w2\<rparr>)"
    by (simp add: generateAIMaintenanceReport_def g st h)
  then show ?thesis by (simp add: errors w2 g)
qed

lemma report_general:
  "\<exists>r. snd (generateAIMaintenanceReport w) = Inr r
      \<and> statistics r = snd (getErrorStatistics w)
      \<and> (\<exists>pre post n. statistics r = pre @ (mostFrequentCategory r, n) # post
            \<and> (\<forall>(c', n') \<in> set pre. n' < n) \<and> (\<forall>(c', n') \<in> set post. n' \<le> n)
            \<and> int (length (topErrors r)) = min 10 n)
      \<and> length (topErrors r) \<le> 10
      \<and> (\<forall>e \<in> set (topErrors r). category e = mostFrequentCategory r)
      \<and> topErrors r =
          take 10 (filter (\<lambda>d. category d = mostFrequentCategory r) (documents (scanned w)))
      \<and> totalErrors r = sum_list (map snd (statistics r))
      \<and> (log_listable w \<and> list_all is_document (json_files (logs w)) \<longrightarrow>
            length (topErrors r) =
              min 10 (length (filter (\<lambda>d. category d = mostFrequentCategory r)
                                 (documents (json_files (logs w))))))"
proof -
  let ?st = "snd (getErrorStatistics w)"
  obtain c n rest where s: "sort_desc ?st = (c, n) # rest"
    using sort_desc_nonempty [OF statistics_nonempty, of w]
    by (cases "sort_desc ?st") auto
  let ?top = "take 10 (filter (\<lambda>d. category d = c) (documents (scanned w)))"
  let ?r = "\<lparr>statistics = ?st, mostFrequentCategory = c, topErrors = ?top,
             totalErrors = sum_list (map snd ?st), generatedAt = iso_now w\<rparr>"
  have r: "snd (generateAIMaintenanceReport w) = Inr ?r"
    by (rule generate_report [OF s])
  obtain pre post where split: "?st = pre @ (c, n) # post"
    and pre: "\<forall>(c', n') \<in> set pre. n' < n" and post: "\<forall>(c', n') \<in> set post. n' \<le> n"
    using sort_desc_head [OF s] by blast
  have "(c, n) \<in> set ?st" by (subst split) simp
  then have n: "n = int (length (filter (\<lambda>d. category d = c) (documents (scanned w))))"
    by (rule statistics_count)
  have len: "int (length ?top) = min 10 n" by (simp add: n)
  have full: "log_listable w \<and> list_all is_document (json_files (logs w)) \<longrightarrow>
      length ?top = min 10 (length (filter (\<lambda>d. category d = c)
                                 (documents (json_files (logs w)))))"
    by (simp add: scanned_def takeWhile_all min.commute)
  have cat: "\<forall>e \<in> set ?top. category e = c"
    by (auto dest: in_set_takeD)
  have top10: "length ?top \<le> 10" by simp
  have best: "\<exists>pre post n. ?st = pre @ (c, n) # post
            \<and> (\<forall>(c', n') \<in> set pre. n' < n) \<and> (\<forall>(c', n') \<in> set post. n' \<le> n)
            \<and> int (length ?top) = min 10 n"
    using split pre post len by blast
  have all: "snd (generateAIMaintenanceReport w) = Inr ?r
      \<and> ?st = ?st
      \<and> (\<exists>pre post n. ?st = pre @ (c, n) # post
            \<and> (\<forall>(c', n') \<in> set pre. n' < n) \<and> (\<forall>(c', n') \<in> set post. n' \<le> n)
            \<and> int (length ?top) = min 10 n)
      \<and> length ?top \<le> 10
      \<and> (\<forall>e \<in> set ?top. category e = c)
      \<and> ?top = ?top
      \<and> sum_list (map snd ?st) = sum_list (map snd ?st)
      \<and> (log_listable w \<and> list_all is_document (json_files (logs w)) \<longrightarrow>
            length ?top =
              min 10 (length (filter (\<lambda>d. category d = c)
                                 (documents (json_files (logs w))))))"
    by (intro conjI r best top10 cat full refl)
  show ?thesis
    by (rule exI [of _ ?r]) (unfold report.select_convs, rule all)
qed

lemma logErrorToFile_fields [simp]:
  "log_writable (logErrorToFile w ed) = log_writable w"
  "log_listable (logErrorToFile w ed) = log_listable w"
  "iso_now (logErrorToFile w ed) = iso_now w"
  by (simp_all add: logErrorToFile_def writeFileSync_def console_error_def Let_def
      split: sum.splits)

lemma report_at_fields [simp]:
  "log_writable (report_at t ec w) = log_writable w"
  "log_listable (report_at t ec w) = log_listable w"
  "iso_now (report_at t ec w) = iso_now w"
  by (simp_all add: report_at_def reportError_serializable console_error_def)

lemma report_at_logs:
  "log_writable w \<Longrightarrow>
   logs (report_at t ec w) =
     put_file (logs w)
       \<lparr>file_name = log_file_name (code ec) t, mtime = t,
        content = Document (reported None (w\<lparr>now := t\<rparr>) ec Undefined None),
        can_stat = True, can_unlink = True\<rparr>"
  by (simp add: report_at_def reportError_logs) (simp add: reported_def)

lemma reported_category [simp]: "category (reported pg w ec d sn) = category ec"
  by (simp add: reported_def)

lemma record_of_category [simp]: "category (record_of ec) = category ec"
  by (simp add: record_of_def)

lemmas catalog_simps =
  ERROR_AUTH_FAILED_def ERROR_NAVIGATION_FAILED_def ERROR_ELEMENT_NOT_VISIBLE_def
  ERROR_LOCATOR_NOT_FOUND_def ERROR_INVALID_DATA_def ERROR_NETWORK_TIMEOUT_def entry_def

lemma reported_no_page:
  "iso_now w = iso_now w0 \<Longrightarrow> reported None w ec Undefined None = record_of ec"
  by (simp add: reported_def record_of_def)

lemma scenario_files:
  "map file_name (logs scenario) =
     [''error_2001_1714557600001.json'', ''error_2001_1714557600002.json'',
      ''error_2002_1714557600003.json'', ''error_2002_1714557600004.json'',
      ''error_3002_1714557600005.json'', ''error_3002_1714557600006.json'',
      ''error_6001_1714557600007.json'']
   \<and> map content (logs scenario) =
     [Document (record_of ERROR_LOCATOR_NOT_FOUND),
      Document (record_of ERROR_LOCATOR_NOT_FOUND),
      Document (record_of ERROR_ELEMENT_NOT_VISIBLE),
      Document (record_of ERROR_ELEMENT_NOT_VISIBLE),
      Document (record_of ERROR_NAVIGATION_FAILED),
      Document (record_of ERROR_NAVIGATION_FAILED),
      Document (record_of ERROR_AUTH_FAILED)]"
proof -
  have w: "log_writable w0" "logs w0 = []" by (simp_all add: w0_def)
  show ?thesis
    by (simp add: scenario_def report_at_logs reported_no_page w put_file_def
        log_file_name_def show_int_eval catalog_simps)
qed

lemma scenario_listable: "log_listable scenario"
  by (simp add: scenario_def w0_def)

lemma json_files_all:
  "list_all (\<lambda>n. suffix ''.json'' n) (map file_name dir) \<Longrightarrow> json_files dir = dir"
  by (induction dir) (auto simp: json_files_def)

lemma documents_contents:
  "documents dir =
     concat (map (\<lambda>c. case c of Document d \<Rightarrow> [d] | Unreadable \<Rightarrow> [] | Garbled \<Rightarrow> [])
               (map content dir))"
  by (induction dir) (auto split: file_content.splits)

lemma is_document_contents:
  "list_all is_document dir =
     list_all (\<lambda>c. case c of Document d \<Rightarrow> True | Unreadable \<Rightarrow> False | Garbled \<Rightarrow> False)
       (map content dir)"
  by (induction dir) (auto simp: is_document_def)

lemma scenario_json: "json_files (logs scenario) = logs scenario"
  by (rule json_files_all) (simp add: scenario_files suffix_eval)

lemma scenario_valid: "list_all is_document (json_files (logs scenario))"
  by (simp add: scenario_json is_document_contents scenario_files)

lemma scenario_categories:
  "map category (documents (scanned scenario)) =
     [ELEMENT, ELEMENT, ELEMENT, ELEMENT, NAVIGATION, NAVIGATION, AUTH]"
  using scenario_valid
  by (simp add: scanned_def scenario_listable takeWhile_all scenario_json documents_contents
      scenario_files catalog_simps)

lemma scenario_statistics:
  "snd (getErrorStatistics scenario) =
     [(DATA, 0), (ELEMENT, 4), (NAVIGATION, 2), (ASSERTION, 0), (NETWORK, 0), (AUTH, 1),
      (PERFORMANCE, 0), (VISUAL, 0), (API, 0), (FRAMEWORK, 0), (UNKNOWN, 0)]"
  by (simp add: getErrorStatistics_stats scenario_categories init_stats_def
      ErrorCategory_values_def increment_def)

lemma scenario_sorted:
  "sort_desc (snd (getErrorStatistics scenario)) =
     [(ELEMENT, 4), (NAVIGATION, 2), (AUTH, 1), (DATA, 0), (ASSERTION, 0), (NETWORK, 0),
      (PERFORMANCE, 0), (VISUAL, 0), (API, 0), (FRAMEWORK, 0), (UNKNOWN, 0)]"
  by (simp add: scenario_statistics sort_desc_def)

lemma scenario_report:
  "\<exists>r. snd (generateAIMaintenanceReport scenario) = Inr r
      \<and> mostFrequentCategory r = ELEMENT \<and> length (topErrors r) = 4 \<and> totalErrors r = 7"
proof -
  have "length (filter (\<lambda>d. category d = ELEMENT) (documents (scanned scenario))) =
      length (filter (\<lambda>c. c = ELEMENT) (map category (documents (scanned scenario))))"
    by (simp add: filter_map comp_def)
  then have four: "length (filter (\<lambda>d. category d = ELEMENT) (documents (scanned scenario))) = 4"
    by (simp add: scenario_categories)
  show ?thesis
    by (simp add: generate_report [OF scenario_sorted] four) (simp add: scenario_statistics)
qed

lemma two_records_total:
  "log_listable two_records" "list_all is_document (json_files (logs two_records))"
  "sum_list (map snd (snd (getErrorStatistics two_records))) = 2"
proof -
  have j: "json_files (logs two_records) = logs two_records"
    by (simp add: json_files_def two_records_def suffix_eval)
  show l: "log_listable two_records" by (simp add: two_records_def w0_def)
  show a: "list_all is_document (json_files (logs two_records))"
    by (simp add: j) (simp add: two_records_def)
  have "scanned two_records = logs two_records"
    using l a by (simp add: scanned_def takeWhile_all j)
  then have "map category (documents (scanned two_records)) = [DATA, AUTH]"
    by (simp add: two_records_def catalog_simps)
  then show "sum_list (map snd (snd (getErrorStatistics two_records))) = 2"
    by (simp add: getErrorStatistics_stats init_stats_def ErrorCategory_values_def
        increment_def)
qed

lemma prune_loop_fst:
  "fst (prune_loop c fs dir) =
     filter (\<lambda>g. file_name g \<notin> file_name ` set (doomed c fs)) dir"
proof (induction fs arbitrary: dir)
  case Nil
  then show ?case by (simp add: doomed_def)
next
  case (Cons f fs)
  show ?case
  proof (cases "body_ok c f")
    case False
    then show ?thesis by (auto simp: doomed_def body_ok_def)
  next
    case True
    show ?thesis
    proof (cases "mtime f < c")
      case old: True
      with True have "fst (prune_loop c (f # fs) dir) =
          fst (prune_loop c fs (unlink dir (file_name f)))"
        by (simp add: body_ok_def)
      also have "\<dots> = filter (\<lambda>g. file_name g \<notin> file_name ` set (doomed c fs))
                        (filter (\<lambda>g. file_name g \<noteq> file_name f) dir)"
        by (simp add: Cons.IH unlink_def)
      also have "\<dots> = filter (\<lambda>g. file_name g \<notin> file_name ` set (doomed c (f # fs))) dir"
        using True old by (auto simp: doomed_def intro: filter_cong)
      finally show ?thesis .
    next
      case new: False
      with True show ?thesis by (simp add: Cons.IH doomed_def body_ok_def)
    qed
  qed
qed

lemma prune_loop_snd:
  "(snd (prune_loop c fs dir) = None) = list_all (body_ok c) fs"
  by (induction fs arbitrary: dir) (auto simp: body_ok_def)

lemma clear_logs:
  "logs (clearOldErrorLogs w n) =
     (if log_listable w
      then filter (\<lambda>g. file_name g \<notin>
                      file_name ` set (doomed (cutoff_of w n) (json_files (logs w)))) (logs w)
      else logs w)"
proof (cases "log_listable w")
  case True
  obtain dir e where p: "prune_loop (cutoff_of w n) (json_files (logs w)) (logs w) = (dir, e)"
    by (cases "prune_loop (cutoff_of w n) (json_files (logs w)) (logs w)")
  then have "dir = filter (\<lambda>g. file_name g \<notin>
        file_name ` set (doomed (cutoff_of w n) (json_files (logs w)))) (logs w)"
    using prune_loop_fst [of "cutoff_of w n" "json_files (logs w)" "logs w"] by simp
  with True p show ?thesis
    by (cases e) (simp_all add: clearOldErrorLogs_def cutoff_of_def console_error_def)
next
  case False
  then show ?thesis by (simp add: clearOldErrorLogs_def console_error_def)
qed

lemma clear_console:
  "console (clearOldErrorLogs w n) =
     (if log_listable w \<and> list_all (body_ok (cutoff_of w n)) (json_files (logs w))
      then console w else console w @ [''Failed to clear old error logs:''])"
proof (cases "log_listable w")
  case True
  obtain dir e where p: "prune_loop (cutoff_of w n) (json_files (logs w)) (logs w) = (dir, e)"
    by (cases "prune_loop (cutoff_of w n) (json_files (logs w)) (logs w)")
  then have "(e = None) = list_all (body_ok (cutoff_of w n)) (json_files (logs w))"
    using prune_loop_snd [of "cutoff_of w n" "json_files (logs w)" "logs w"] by simp
  with True p show ?thesis
    by (cases e) (simp_all add: clearOldErrorLogs_def cutoff_of_def console_error_def)
next
  case False
  then show ?thesis by (simp add: clearOldErrorLogs_def console_error_def)
qed

lemma clear_fields [simp]:
  "now (clearOldErrorLogs w n) = now w"
  "log_listable (clearOldErrorLogs w n) = log_listable w"
  by (simp_all add: clearOldErrorLogs_def console_error_def Let_def split: prod.splits option.splits)

lemma cutoff_clear [simp]: "cutoff_of (clearOldErrorLogs w n) n = cutoff_of w n"
  by (simp add: cutoff_of_def)

lemma doomed_subset: "set (doomed c fs) \<subseteq> set fs"
  by (auto simp: doomed_def dest: set_takeWhileD)

lemma same_name_same_file:
  "distinct (map file_name dir) \<Longrightarrow> g \<in> set dir \<Longrightarrow> f \<in> set dir \<Longrightarrow>
     file_name g = file_name f \<Longrightarrow> g = f"
  by (meson distinct_map inj_onD)

lemma filter_doomed:
  assumes "distinct (map file_name dir)" and "set fs \<subseteq> set dir"
  shows "filter (\<lambda>g. file_name g \<notin> file_name ` set (doomed c fs)) dir =
         filter (\<lambda>g. g \<notin> set (doomed c fs)) dir"
proof (rule filter_cong [OF refl])
  fix g assume g: "g \<in> set dir"
  show "(file_name g \<notin> file_name ` set (doomed c fs)) = (g \<notin> set (doomed c fs))"
  proof
    assume "file_name g \<notin> file_name ` set (doomed c fs)"
    then show "g \<notin> set (doomed c fs)" by blast
  next
    assume n: "g \<notin> set (doomed c fs)"
    show "file_name g \<notin> file_name ` set (doomed c fs)"
    proof
      assume "file_name g \<in> file_name ` set (doomed c fs)"
      then obtain f where f: "f \<in> set (doomed c fs)" "file_name g = file_name f" by blast
      with doomed_subset assms(2) have "f \<in> set dir" by blast
      with assms(1) g f have "g = f" by (blast intro: same_name_same_file)
      with n f show False by simp
    qed
  qed
qed

lemma json_files_subset: "set (json_files dir) \<subseteq> set dir"
  by (auto simp: json_files_def)

lemma clear_logs_distinct:
  assumes "distinct (map file_name (logs w))"
  shows "logs (clearOldErrorLogs w n) =
     (if log_listable w
      then filter (\<lambda>g. g \<notin> set (doomed (cutoff_of w n) (json_files (logs w)))) (logs w)
      else logs w)"
  using filter_doomed [OF assms json_files_subset] by (simp add: clear_logs)

lemma doomed_after_prune:
  "distinct fs \<Longrightarrow> doomed c (filter (\<lambda>g. g \<notin> set (doomed c fs)) fs) = []"
proof (induction fs)
  case Nil
  then show ?case by (simp add: doomed_def)
next
  case (Cons f fs)
  then have notin: "f \<notin> set fs" and d: "distinct fs" by simp_all
  have sub: "f \<notin> set (doomed c fs)" using notin doomed_subset by blast
  show ?case
  proof (cases "body_ok c f")
    case False
    then have "doomed c (f # fs) = []" by (simp add: doomed_def)
    then show ?thesis by simp
  next
    case True
    show ?thesis
    proof (cases "mtime f < c")
      case old: True
      with True have e: "doomed c (f # fs) = f # doomed c fs" by (simp add: doomed_def)
      have "filter (\<lambda>g. g \<notin> set (doomed c (f # fs))) (f # fs) =
            filter (\<lambda>g. g \<notin> set (doomed c fs)) fs"
        using notin by (auto simp: e intro: filter_cong)
      then show ?thesis using Cons.IH [OF d] by simp
    next
      case new: False
      with True have e: "doomed c (f # fs) = doomed c fs" by (simp add: doomed_def)
      have "filter (\<lambda>g. g \<notin> set (doomed c (f # fs))) (f # fs) =
            f # filter (\<lambda>g. g \<notin> set (doomed c fs)) fs"
        using sub by (simp add: e)
      moreover have "doomed c (f # filter (\<lambda>g. g \<notin> set (doomed c fs)) fs) =
            doomed c (filter (\<lambda>g. g \<notin> set (doomed c fs)) fs)"
        using True new by (simp add: doomed_def)
      ultimately show ?thesis using Cons.IH [OF d] by simp
    qed
  qed
qed

lemma json_files_filter: "json_files (filter P dir) = filter P (json_files dir)"
  by (induction dir) (auto simp: json_files_def)

lemma distinct_files:
  "distinct (map file_name dir) \<Longrightarrow> distinct (json_files dir)"
  by (simp add: json_files_def distinct_map)

lemma clear_idempotent:
  assumes "distinct (map file_name (logs w))"
  shows "logs (clearOldErrorLogs (clearOldErrorLogs w n) n) = logs (clearOldErrorLogs w n)"
proof (cases "log_listable w")
  case False
  then show ?thesis by (simp add: clear_logs)
next
  case True
  let ?c = "cutoff_of w n"
  let ?fs = "json_files (logs w)"
  have first: "logs (clearOldErrorLogs w n) =
      filter (\<lambda>g. g \<notin> set (doomed ?c ?fs)) (logs w)"
    using True by (simp add: clear_logs_distinct [OF assms])
  have "doomed ?c (json_files (logs (clearOldErrorLogs w n))) = []"
    using doomed_after_prune [OF distinct_files [OF assms]]
    by (simp add: first json_files_filter)
  then show ?thesis
    using True by (simp add: clear_logs [of "clearOldErrorLogs w n"])
qed

lemma unstatable_simps [simp]:
  "file_name unstatable = ''error_2001_2.json''" "mtime unstatable = 0"
  "\<not> can_stat unstatable"
  by (simp_all add: unstatable_def record_file_def)

lemma w0_clock [simp]: "now w0 = 1714557600000" "log_listable w0" "console w0 = []"
  by (simp_all add: w0_def)

section \<open>The taxonomy: codes are unique\<close>

text \<open>
  C9. In the catalog \<open>ErrorCode\<close>, codes are globally unique: any two distinct entries
  of the catalog (entries at different positions of the object literal, that is entries
  under different names) have different numeric \<open>code\<close> fields.
\<close>

theorem C9_codes_unique:
  "i < length ErrorCode \<Longrightarrow> j < length ErrorCode \<Longrightarrow> i \<noteq> j \<Longrightarrow>
     code (snd (ErrorCode ! i)) \<noteq> code (snd (ErrorCode ! j))"
proof -
  assume i: "i < length ErrorCode" and j: "j < length ErrorCode" and ne: "i \<noteq> j"
  let ?cs = "map (\<lambda>p. code (snd p)) ErrorCode"
  have "?cs ! i \<noteq> ?cs ! j"
    using ErrorCode_codes_distinct i j ne nth_eq_iff_index_eq [of ?cs i j] by simp
  then show ?thesis using i j by simp
qed

theorem C9_codes_unique_witness:
  "(4::nat) < length ErrorCode \<and> (12::nat) < length ErrorCode \<and> (4::nat) \<noteq> 12 \<and>
   code (snd (ErrorCode ! 4)) \<noteq> code (snd (ErrorCode ! 12))"
proof -
  have a: "(4::nat) < length ErrorCode" and b: "(12::nat) < length ErrorCode"
    by (simp_all add: ErrorCode_def)
  have c: "(4::nat) \<noteq> 12" by simp
  show ?thesis using a b c C9_codes_unique [OF a b c] by simp
qed

section \<open>reportError: what it returns and what it persists\<close>

text \<open>
  C1, as amended. For every page (present, absent or closed), every state of the two
  directories, every catalog entry and every \<open>details\<close> payload that
  \<open>JSON.stringify\<close> can serialize, \<open>reportError\<close> resolves to an \<open>ErrorDetails\<close> record:
  the entry's four fields, the payload as it was given (nothing replaces it), the
  timestamp and the location. It degrades without failing: with no page object the
  location is the placeholder and there is no screenshot, a screenshot that fails
  leaves \<open>screenshot\<close> absent, a title that cannot be read becomes \<open>Unknown\<close>, and
  with a log directory that cannot be written nothing is persisted.
\<close>

theorem C1_reportError_serializable_returns:
  assumes "serializable d"
  shows "\<exists>ed. snd (reportError pg w ec d sn) = Inr ed
           \<and> code ed = code ec \<and> category ed = category ec
           \<and> message ed = message ec \<and> title ed = title ec
           \<and> details ed = d \<and> timestamp ed = Some (iso_now w)
           \<and> location ed = Some (getCurrentPageInfo pg)
           \<and> (pg = None \<longrightarrow>
                 location ed = Some ''Unable to get page info'' \<and> screenshot ed = None)
           \<and> (\<forall>p. pg = Some p \<and> (page_screenshot p \<noteq> None \<or> \<not> shot_writable w)
                 \<longrightarrow> screenshot ed = None)
           \<and> (\<forall>p e. pg = Some p \<and> page_title p = Inl e
                 \<longrightarrow> location ed = Some (''URL: '' @ page_url p @ '', Title: Unknown''))
           \<and> (\<not> log_writable w \<longrightarrow> logs (fst (reportError pg w ec d sn)) = logs w)"
proof -
  let ?ed = "reported pg w ec d sn"
  have r: "snd (reportError pg w ec d sn) = Inr ?ed"
    by (simp add: reportError_serializable [OF assms])
  have shot: "\<forall>p. pg = Some p \<and> (page_screenshot p \<noteq> None \<or> \<not> shot_writable w)
                 \<longrightarrow> screenshot ?ed = None"
    using take_screenshot_fails by (auto simp: reported_def)
  have nopage: "pg = None \<longrightarrow>
      location ?ed = Some ''Unable to get page info'' \<and> screenshot ?ed = None"
    by (simp add: reported_def getCurrentPageInfo_def)
  have closed: "\<forall>p e. pg = Some p \<and> page_title p = Inl e
                 \<longrightarrow> location ?ed = Some (''URL: '' @ page_url p @ '', Title: Unknown'')"
    by (simp add: reported_def getCurrentPageInfo_def)
  have unwritable:
    "\<not> log_writable w \<longrightarrow> logs (fst (reportError pg w ec d sn)) = logs w"
    by (simp add: reportError_serializable [OF assms] logErrorToFile_unwritable
        console_error_def)
  have fields: "code ?ed = code ec \<and> category ?ed = category ec
           \<and> message ?ed = message ec \<and> title ?ed = title ec
           \<and> details ?ed = d \<and> timestamp ?ed = Some (iso_now w)
           \<and> location ?ed = Some (getCurrentPageInfo pg)"
    by (simp add: reported_def)
  from r fields nopage shot closed unwritable show ?thesis by blast
qed

theorem C1_witness:
  "serializable (Obj [(''selector'', Str ''#login'')]) \<and>
   (\<exists>ed. snd (reportError (Some closed_page) (w0\<lparr>log_writable := False\<rparr>) ERROR_LOCATOR_NOT_FOUND
              (Obj [(''selector'', Str ''#login'')]) None) = Inr ed
         \<and> details ed = Obj [(''selector'', Str ''#login'')]
         \<and> screenshot ed = None
         \<and> location ed = Some ''URL: https://www.saucedemo.com/, Title: Unknown'')"
proof -
  have s: "serializable (Obj [(''selector'', Str ''#login'')])" by simp
  have p: "page_screenshot closed_page \<noteq> None" "page_url closed_page = ''https://www.saucedemo.com/''"
    "\<exists>e. page_title closed_page = Inl e"
    by (simp_all add: closed_page_def)
  from C1_reportError_serializable_returns [OF s, of "Some closed_page"
      "w0\<lparr>log_writable := False\<rparr>" ERROR_LOCATOR_NOT_FOUND None] p s
  show ?thesis by (metis append_Cons append_Nil)
qed

text \<open>
  With the circular payload \<open>d.self = d\<close> the promise rejects with the \<open>TypeError\<close> of
  \<open>JSON.stringify\<close>, raised while the arguments of \<open>console.error\<close> are evaluated; no
  record is returned and none is written.
\<close>

theorem C1_counterexample:
  "reportError None w0 ERROR_INVALID_DATA circular None =
     (w0, Inl (NativeError ''Converting circular structure to JSON''))"
  by (simp add: reportError_circular circular_def)




section \<open>createError and handleError\<close>




section \<open>Statistics and the maintenance report\<close>







section \<open>Pruning old logs\<close>



text \<open>
  C7, as amended. A \<open>statSync\<close> or \<open>unlinkSync\<close> that fails on one file is logged and
  does not reach the caller, but it ends the batch: the files listed before the
  failing one have been examined and deleted when old enough, the failing file and
  every file listed after it are still there.
\<close>

theorem C7_failure_ends_batch:
  assumes "distinct (map file_name (logs w))" and "log_listable w"
    and "json_files (logs w) = pre @ f # rest"
    and "\<forall>g \<in> set pre. can_stat g \<and> (mtime g < now w - n * 24 * 60 * 60 * 1000 \<longrightarrow> can_unlink g)"
    and "\<not> can_stat f \<or> (mtime f < now w - n * 24 * 60 * 60 * 1000 \<and> \<not> can_unlink f)"
  shows "logs (clearOldErrorLogs w n) =
           filter (\<lambda>g. \<not> (g \<in> set pre \<and> mtime g < now w - n * 24 * 60 * 60 * 1000)) (logs w)
       \<and> f \<in> set (logs (clearOldErrorLogs w n))
       \<and> set rest \<subseteq> set (logs (clearOldErrorLogs w n))
       \<and> console (clearOldErrorLogs w n) = console w @ [''Failed to clear old error logs:'']"
proof -
  let ?c = "cutoff_of w n"
  let ?fs = "json_files (logs w)"
  have c: "now w - n * 24 * 60 * 60 * 1000 = ?c" by (simp add: cutoff_of_def)
  have pre: "list_all (body_ok ?c) pre"
    using assms(4) unfolding c by (simp add: list_all_iff body_ok_def)
  have f: "\<not> body_ok ?c f" using assms(5) unfolding c by (auto simp: body_ok_def)
  have tw: "takeWhile (body_ok ?c) ?fs = pre"
    using pre f by (simp add: assms(3) takeWhile_append2 list_all_iff)
  have dm: "doomed ?c ?fs = filter (\<lambda>g. mtime g < ?c) pre" by (simp add: doomed_def tw)
  have l: "logs (clearOldErrorLogs w n) =
      filter (\<lambda>g. \<not> (g \<in> set pre \<and> mtime g < ?c)) (logs w)"
    using assms(2) by (simp add: clear_logs_distinct [OF assms(1)] dm)
  have d: "distinct (pre @ f # rest)"
    using distinct_files [OF assms(1)] by (simp add: assms(3))
  have inlogs: "f \<in> set (logs w)" "set rest \<subseteq> set (logs w)"
    using json_files_subset [of "logs w"] by (auto simp: assms(3))
  have "f \<in> set (logs (clearOldErrorLogs w n))"
    using d inlogs by (auto simp: l)
  moreover have "set rest \<subseteq> set (logs (clearOldErrorLogs w n))"
    using d inlogs by (auto simp: l)
  moreover have "\<not> list_all (body_ok ?c) ?fs" using f by (simp add: assms(3))
  then have "console (clearOldErrorLogs w n) = console w @ [''Failed to clear old error logs:'']"
    by (simp add: clear_console)
  ultimately show ?thesis using l unfolding c by blast
qed

text \<open>
  A directory listing a file on which \<open>statSync\<close> fails before a record file that is old
  enough and can be deleted: after the run both files are still there.
\<close>

theorem C7_counterexample:
  "logs (clearOldErrorLogs stat_fails 30) =
     [unstatable, record_file ''error_6001_3.json'' 0 ERROR_AUTH_FAILED]
   \<and> mtime (record_file ''error_6001_3.json'' 0 ERROR_AUTH_FAILED)
        < now stat_fails - 30 * 24 * 60 * 60 * 1000
   \<and> can_stat (record_file ''error_6001_3.json'' 0 ERROR_AUTH_FAILED)
   \<and> can_unlink (record_file ''error_6001_3.json'' 0 ERROR_AUTH_FAILED)"
proof -
  have j: "json_files (logs stat_fails) = logs stat_fails"
    by (simp add: json_files_def stat_fails_def suffix_eval)
  have "logs (clearOldErrorLogs stat_fails 30) = logs stat_fails"
    by (simp add: clearOldErrorLogs_def j) (simp add: stat_fails_def console_error_def)
  then show ?thesis by (simp add: stat_fails_def)
qed

theorem C7_witness:
  "distinct (map file_name (logs stat_fails_later)) \<and> log_listable stat_fails_later \<and>
   json_files (logs stat_fails_later) =
     [record_file ''error_1001_1.json'' 0 ERROR_INVALID_DATA] @ unstatable #
     [record_file ''error_6001_3.json'' 0 ERROR_AUTH_FAILED] \<and>
   \<not> can_stat unstatable \<and>
   logs (clearOldErrorLogs stat_fails_later 30) =
     [unstatable, record_file ''error_6001_3.json'' 0 ERROR_AUTH_FAILED] \<and>
   console (clearOldErrorLogs stat_fails_later 30) = [''Failed to clear old error logs:'']"
proof -
  let ?a = "record_file ''error_1001_1.json'' 0 ERROR_INVALID_DATA"
  let ?b = "record_file ''error_6001_3.json'' 0 ERROR_AUTH_FAILED"
  have d: "distinct (map file_name (logs stat_fails_later))"
    by (simp add: stat_fails_later_def)
  have l: "log_listable stat_fails_later" by (simp add: stat_fails_later_def)
  have j: "json_files (logs stat_fails_later) = [?a] @ unstatable # [?b]"
    by (simp add: json_files_def stat_fails_later_def suffix_eval)
  have p: "\<forall>g \<in> set [?a]. can_stat g \<and>
      (mtime g < now stat_fails_later - 30 * 24 * 60 * 60 * 1000 \<longrightarrow> can_unlink g)"
    by simp
  have f: "\<not> can_stat unstatable \<or>
      (mtime unstatable < now stat_fails_later - 30 * 24 * 60 * 60 * 1000 \<and> \<not> can_unlink unstatable)"
    by simp
  have ne: "?a \<noteq> unstatable" "?a \<noteq> ?b"
    by (simp_all add: record_file_def unstatable_def)
  have "filter (\<lambda>g. \<not> (g \<in> set [?a]
            \<and> mtime g < now stat_fails_later - 30 * 24 * 60 * 60 * 1000))
          (logs stat_fails_later) = [unstatable, ?b]"
    using ne by (auto simp: stat_fails_later_def)
  with C7_failure_ends_batch [OF d l j p f] d l j show ?thesis
    by (simp add: stat_fails_later_def)
qed

section \<open>BasePage: report-only and report-then-throw actions\<close>



text \<open>
  C10. For every path, \<open>navigate\<close> never rejects with the original error. When the
  \<open>try\<close> block completes it resolves; when it throws, and it does as soon as the URL
  cannot be built, before any call on the page, the failure is reported as
  \<open>ERROR_NAVIGATION_FAILED\<close> and the promise rejects with the error of \<open>createError\<close>,
  which carries code 3002, category \<open>NAVIGATION\<close> and the title.
\<close>

theorem C10_navigate:
  "(\<forall>m. snd (navigate new_URL this w path) \<noteq> Inl (NativeError m))
   \<and> (try_goto new_URL this path = None \<longrightarrow> navigate new_URL this w path = (w, Inr ()))
   \<and> (\<forall>e. new_URL path (baseUrl this) = Inl e \<longrightarrow> try_goto new_URL this path = Some e)
   \<and> (\<forall>error. try_goto new_URL this path = Some error \<longrightarrow>
         (\<exists>msg. navigate new_URL this w path =
                  (fst (reportError (the_page this) w ERROR_NAVIGATION_FAILED
                          (nav_details this path error) None),
                   Inl (ClassifiedError msg 3002 NAVIGATION ''Navigation Failed'')))
         \<and> report_line ERROR_NAVIGATION_FAILED
               \<in> set (console (fst (navigate new_URL this w path))))"
proof -
  have c: "code ERROR_NAVIGATION_FAILED = 3002" "category ERROR_NAVIGATION_FAILED = NAVIGATION"
    "title ERROR_NAVIGATION_FAILED = ''Navigation Failed''"
    by (simp_all add: ERROR_NAVIGATION_FAILED_def entry_def)
  have ok: "try_goto new_URL this path = None \<longrightarrow> navigate new_URL this w path = (w, Inr ())"
    by (simp add: navigate_def)
  have url: "\<forall>e. new_URL path (baseUrl this) = Inl e \<longrightarrow> try_goto new_URL this path = Some e"
    by (simp add: try_goto_def)
  have thrown: "\<forall>error. try_goto new_URL this path = Some error \<longrightarrow>
         (\<exists>msg. navigate new_URL this w path =
                  (fst (reportError (the_page this) w ERROR_NAVIGATION_FAILED
                          (nav_details this path error) None),
                   Inl (ClassifiedError msg 3002 NAVIGATION ''Navigation Failed'')))
         \<and> report_line ERROR_NAVIGATION_FAILED
               \<in> set (console (fst (navigate new_URL this w path)))"
  proof (intro allI impI)
    fix error assume t: "try_goto new_URL this path = Some error"
    have s: "serializable (nav_details this path error)" by (simp add: nav_details_def)
    show "(\<exists>msg. navigate new_URL this w path =
                  (fst (reportError (the_page this) w ERROR_NAVIGATION_FAILED
                          (nav_details this path error) None),
                   Inl (ClassifiedError msg 3002 NAVIGATION ''Navigation Failed'')))
         \<and> report_line ERROR_NAVIGATION_FAILED
               \<in> set (console (fst (navigate new_URL this w path)))"
      using reportError_console [OF s]
      by (simp add: navigate_throws [OF t] createError_message c)
  qed
  have "\<forall>m. snd (navigate new_URL this w path) \<noteq> Inl (NativeError m)"
  proof (cases "try_goto new_URL this path")
    case None
    then show ?thesis by (simp add: navigate_def)
  next
    case (Some error)
    then show ?thesis by (simp add: navigate_throws createError_message)
  qed
  with ok url thrown show ?thesis by blast
qed

theorem C10_witness:
  "bad_URL ''/inventory.html'' (baseUrl login_page) = Inl (NativeError ''Invalid URL'') \<and>
   try_goto bad_URL login_page ''/inventory.html'' = Some (NativeError ''Invalid URL'') \<and>
   (\<exists>msg. snd (navigate bad_URL login_page w0 ''/inventory.html'') =
            Inl (ClassifiedError msg 3002 NAVIGATION ''Navigation Failed''))"
proof -
  have a: "bad_URL ''/inventory.html'' (baseUrl login_page) = Inl (NativeError ''Invalid URL'')"
    by (simp add: bad_URL_def)
  from C10_navigate [of bad_URL login_page w0 "''/inventory.html''"] a
  show ?thesis by (metis snd_conv)
qed

end
